theory Spec2Isabelle
  imports Complex_Main "HOL-Library.Sublist"
begin

section \<open>Plate geometry: grid, mesh, plate groups and STAAD export\<close>

text \<open>
  A shallow embedding of the computations of \<^verbatim>\<open>App.jsx\<close> and \<^verbatim>\<open>utils.js\<close>:
  the grid lines, the nodes, members and plates, the three plate groups and the
  export text.

  JavaScript numbers are modelled by exact rationals (\<^typ>\<open>rat\<close>) where they hold
  coordinates and dimensions, and by \<^typ>\<open>int\<close> where they hold ids, counters and
  indices. Binary floating-point rounding, \<^verbatim>\<open>NaN\<close> and the infinities are outside
  the model; the one place where the source can divide a positive span by a zero
  step (and then loop forever) is a \<open>None\<close> result of \<open>addDivisions\<close>.
  A JavaScript \<^verbatim>\<open>Set\<close> is a duplicate-free list in insertion order, an object or
  \<^verbatim>\<open>Map\<close> used as a dictionary is an association list whose newest entry is first.
\<close>

subsection \<open>utils.js\<close>

text \<open>\<^verbatim>\<open>Math.round\<close>: the nearest integer, a tie going up.\<close>

definition Math_round :: "rat \<Rightarrow> int" where
  "Math_round x = \<lfloor>x + 1 / 2\<rfloor>"

definition clamp :: "rat \<Rightarrow> rat \<Rightarrow> rat \<Rightarrow> rat" where
  "clamp v a b = min (max v a) b"

definition round3 :: "rat \<Rightarrow> rat" where
  "round3 n = of_int (Math_round (n * 1000)) / 1000"

text \<open>\<^verbatim>\<open>Set.prototype.add\<close> and \<^verbatim>\<open>new Set(array)\<close>, keeping insertion order.\<close>

definition set_add :: "'a list \<Rightarrow> 'a \<Rightarrow> 'a list" where
  "set_add s x = (if x \<in> set s then s else s @ [x])"

definition new_Set :: "'a list \<Rightarrow> 'a list" where
  "new_Set arr = fold (\<lambda>x s. set_add s x) arr []"

definition eps_default :: rat where
  "eps_default = 1 / 1000000"

definition uniqSorted :: "rat list \<Rightarrow> rat \<Rightarrow> rat list" where
  "uniqSorted arr eps = sort (new_Set (map (\<lambda>x. of_int (Math_round (x / eps)) * eps) arr))"

text \<open>
  The loop of \<^verbatim>\<open>findClosestIndex\<close>; \<open>closest = None\<close> stands for \<^verbatim>\<open>Infinity\<close>.
\<close>

fun findClosest_loop :: "rat list \<Rightarrow> rat \<Rightarrow> int \<Rightarrow> rat option \<Rightarrow> int \<Rightarrow> int" where
  "findClosest_loop [] target i closest closestIndex = closestIndex"
| "findClosest_loop (a # arr) target i closest closestIndex =
     (let diff = \<bar>a - target\<bar> in
      if (case closest of None \<Rightarrow> True | Some c \<Rightarrow> diff < c)
      then findClosest_loop arr target (i + 1) (Some diff) i
      else findClosest_loop arr target (i + 1) closest closestIndex)"

definition findClosestIndex :: "rat list \<Rightarrow> rat \<Rightarrow> int" where
  "findClosestIndex arr target = findClosest_loop arr target 0 None (- 1)"

subsection \<open>Pedestals and the grid lines\<close>

record point =
  pt_id :: int
  pt_x :: rat
  pt_z :: rat
  pt_length :: rat
  pt_width :: rat

text \<open>The body of the inner \<^verbatim>\<open>for (j = 1; j <= k; j++)\<close> loop of \<^verbatim>\<open>addDivisions\<close>.\<close>

definition division_step :: "rat \<Rightarrow> rat \<Rightarrow> rat \<Rightarrow> int \<Rightarrow> rat list \<Rightarrow> rat list" where
  "division_step a b step j lines =
     (let t = a + of_int j * step in
      if t > a + 1 / 1000000000 \<and> t < b - 1 / 1000000000 then set_add lines t else lines)"

text \<open>
  The outer loop over adjacent cuts. With \<open>step = 0\<close> and a positive span the
  source computes \<open>k = Infinity\<close> and never leaves the inner loop: \<open>None\<close>.
\<close>

fun addDivisions_loop :: "rat \<Rightarrow> rat list \<Rightarrow> rat list \<Rightarrow> rat list option" where
  "addDivisions_loop step (a # b # cuts) lines =
     (let span = b - a in
      if span \<le> 0 then addDivisions_loop step (b # cuts) lines
      else if step = 0 then None
      else addDivisions_loop step (b # cuts)
             (fold (division_step a b step) [1..\<lfloor>span / step\<rfloor>] lines))"
| "addDivisions_loop step cuts lines = Some lines"

definition addDivisions :: "rat list \<Rightarrow> rat \<Rightarrow> rat \<Rightarrow> rat list option" where
  "addDivisions cuts mx step = map_option sort (addDivisions_loop step cuts (new_Set cuts))"

definition xCuts :: "rat \<Rightarrow> point list \<Rightarrow> rat list" where
  "xCuts len points = uniqSorted ([0, len] @ map (\<lambda>p. clamp (pt_x p) 0 len) points) eps_default"

definition zCuts :: "rat \<Rightarrow> point list \<Rightarrow> rat list" where
  "zCuts width points = uniqSorted ([0, width] @ map (\<lambda>p. clamp (pt_z p) 0 width) points) eps_default"

definition xLines :: "rat \<Rightarrow> rat \<Rightarrow> point list \<Rightarrow> rat list option" where
  "xLines len mesh points = addDivisions (xCuts len points) len mesh"

definition zLines :: "rat \<Rightarrow> rat \<Rightarrow> point list \<Rightarrow> rat list option" where
  "zLines width mesh points = addDivisions (zCuts width points) width mesh"

subsection \<open>Nodes, members and plates\<close>

datatype node_type = surface | pedestal

record node =
  n_id :: int
  n_x :: rat
  n_y :: rat
  n_z :: rat
  n_type :: node_type

record member =
  m_id :: int
  startNode :: int
  endNode :: int
  pointData :: point

record plate =
  p_id :: int
  p_nodes :: "int list"

text \<open>
  The local variables of the mesh computation. The key \<^verbatim>\<open>`${round3(x)},${round3(z)}`\<close>
  of \<open>surfaceNodesByCoord\<close> is the pair of the two rounded numbers, the key
  \<^verbatim>\<open>`${xi},${zi}`\<close> of \<open>plateIdByCoord\<close> the pair of the two indices.
\<close>

record synth =
  allNodes :: "node list"
  newMembers :: "member list"
  newPlates :: "plate list"
  plateIdByCoord :: "((int \<times> int) \<times> int) list"
  nodeIdCounter :: int
  plateIdCounter :: int
  surfaceNodesByCoord :: "((rat \<times> rat) \<times> int) list"

definition synth_init :: synth where
  "synth_init = \<lparr>allNodes = [], newMembers = [], newPlates = [], plateIdByCoord = [],
     nodeIdCounter = 1, plateIdCounter = 1, surfaceNodesByCoord = []\<rparr>"

definition surface_step :: "rat \<Rightarrow> rat \<Rightarrow> synth \<Rightarrow> synth" where
  "surface_step z x st =
     (let ident = nodeIdCounter st in
      st\<lparr>allNodes := allNodes st @ [\<lparr>n_id = ident, n_x = x, n_y = 0, n_z = z, n_type = surface\<rparr>],
         surfaceNodesByCoord := ((round3 x, round3 z), ident) # surfaceNodesByCoord st,
         nodeIdCounter := ident + 1\<rparr>)"

definition surface_loop :: "rat list \<Rightarrow> rat list \<Rightarrow> synth \<Rightarrow> synth" where
  "surface_loop xs zs st = fold (\<lambda>z. fold (surface_step z) xs) zs st"

text \<open>
  One pedestal of \<^verbatim>\<open>points.forEach\<close>: \<^verbatim>\<open>if (surfaceNodeId)\<close> fails for a missing key
  (\<^verbatim>\<open>undefined\<close>) and for the number 0.
\<close>

definition pedestal_step :: "rat \<Rightarrow> point \<Rightarrow> synth \<Rightarrow> synth" where
  "pedestal_step pedestalHeight pt st =
     (case map_of (surfaceNodesByCoord st) (round3 (pt_x pt), round3 (pt_z pt)) of
        None \<Rightarrow> st
      | Some surfaceNodeId \<Rightarrow>
          if surfaceNodeId \<noteq> 0 then
            (let newPedestalNodeId = nodeIdCounter st in
             st\<lparr>allNodes := allNodes st @
                   [\<lparr>n_id = newPedestalNodeId, n_x = pt_x pt, n_y = pedestalHeight,
                     n_z = pt_z pt, n_type = pedestal\<rparr>],
                newMembers := newMembers st @
                   [\<lparr>m_id = int (length (newMembers st)) + 1, startNode = surfaceNodeId,
                     endNode = newPedestalNodeId, pointData = pt\<rparr>],
                nodeIdCounter := newPedestalNodeId + 1\<rparr>)
          else st)"

definition pedestal_loop :: "rat \<Rightarrow> point list \<Rightarrow> synth \<Rightarrow> synth" where
  "pedestal_loop pedestalHeight points st =
     (if pedestalHeight > 1 / 1000000000 then fold (pedestal_step pedestalHeight) points st
      else st)"

definition nodeIdAt :: "int \<Rightarrow> int \<Rightarrow> int \<Rightarrow> int" where
  "nodeIdAt nX xi zi = zi * nX + xi + 1"

definition plate_step :: "string \<Rightarrow> int \<Rightarrow> int \<Rightarrow> int \<Rightarrow> synth \<Rightarrow> synth" where
  "plate_step zOrientation nX zi xi st =
     (let tl = nodeIdAt nX xi zi;
          tr = nodeIdAt nX (xi + 1) zi;
          br = nodeIdAt nX (xi + 1) (zi + 1);
          bl = nodeIdAt nX xi (zi + 1);
          currentPlateId = plateIdCounter st;
          order = (if zOrientation = ''up'' then [bl, br, tr, tl] else [tl, tr, br, bl])
      in st\<lparr>plateIdCounter := currentPlateId + 1,
            plateIdByCoord := ((xi, zi), currentPlateId) # plateIdByCoord st,
            newPlates := newPlates st @ [\<lparr>p_id = currentPlateId, p_nodes = order\<rparr>]\<rparr>)"

definition plate_loop :: "string \<Rightarrow> int \<Rightarrow> int \<Rightarrow> synth \<Rightarrow> synth" where
  "plate_loop zOrientation nX nZ st =
     fold (\<lambda>zi. fold (plate_step zOrientation nX zi) [0..nX - 2]) [0..nZ - 2] st"

text \<open>The whole mesh computation: its result holds nodes, members, plates and plateIdByCoord.\<close>

definition mesh_synth :: "rat list \<Rightarrow> rat list \<Rightarrow> rat \<Rightarrow> point list \<Rightarrow> string \<Rightarrow> synth" where
  "mesh_synth xL zL pedestalHeight points zOrientation =
     plate_loop zOrientation (int (length xL)) (int (length zL))
       (pedestal_loop pedestalHeight points (surface_loop xL zL synth_init))"

definition nodes :: "rat list \<Rightarrow> rat list \<Rightarrow> rat \<Rightarrow> point list \<Rightarrow> string \<Rightarrow> node list" where
  "nodes xL zL pedestalHeight points zOrientation =
     allNodes (mesh_synth xL zL pedestalHeight points zOrientation)"

definition members :: "rat list \<Rightarrow> rat list \<Rightarrow> rat \<Rightarrow> point list \<Rightarrow> string \<Rightarrow> member list" where
  "members xL zL pedestalHeight points zOrientation =
     newMembers (mesh_synth xL zL pedestalHeight points zOrientation)"

definition plates :: "rat list \<Rightarrow> rat list \<Rightarrow> rat \<Rightarrow> point list \<Rightarrow> string \<Rightarrow> plate list" where
  "plates xL zL pedestalHeight points zOrientation =
     newPlates (mesh_synth xL zL pedestalHeight points zOrientation)"

subsection \<open>Plate groups\<close>

text \<open>
  The index ranges of one pedestal: (start_x, end_x, start_z, end_z), the end
  exclusive, not yet clipped. The quotients by the mesh step are those of a
  non-zero step (the input field keeps it at 0.01 or more); with step 0 the source
  computes with infinities, which the model does not have. The quotients are
  exact here, where the source rounds them to doubles before \<^verbatim>\<open>Math.round\<close>: a
  quotient that is exactly a half-integer can fall below it in doubles (0.3 / 0.2
  is 1.4999999999999998 there and rounds to 1, the exact 3/2 rounds to 2), and the
  range computed by the source is then one cell narrower on each side. Concrete
  ranges are therefore stated below only for inputs at which the double quotients
  round as the exact ones do.
\<close>

type_synonym idx_range = "int \<times> int \<times> int \<times> int"

definition moment_range :: "rat list \<Rightarrow> rat list \<Rightarrow> rat \<Rightarrow> point \<Rightarrow> idx_range" where
  "moment_range xL zL mesh pt =
     (let px_idx = findClosestIndex xL (pt_x pt);
          pz_idx = findClosestIndex zL (pt_z pt);
          num_x_plates_moment = Math_round (pt_length pt / mesh);
          num_z_plates_moment = Math_round (pt_width pt / mesh)
      in (\<lfloor>of_int px_idx - of_int num_x_plates_moment / (2 :: rat)\<rfloor>,
          \<lceil>of_int px_idx + of_int num_x_plates_moment / (2 :: rat)\<rceil>,
          \<lfloor>of_int pz_idx - of_int num_z_plates_moment / (2 :: rat)\<rfloor>,
          \<lceil>of_int pz_idx + of_int num_z_plates_moment / (2 :: rat)\<rceil>))"

definition expand_range :: "int \<Rightarrow> idx_range \<Rightarrow> idx_range" where
  "expand_range numPlatesToAdd r =
     (case r of (start_x, end_x, start_z, end_z) \<Rightarrow>
        (start_x - numPlatesToAdd, end_x + numPlatesToAdd,
         start_z - numPlatesToAdd, end_z + numPlatesToAdd))"

definition oneWay_range :: "rat list \<Rightarrow> rat list \<Rightarrow> rat \<Rightarrow> rat \<Rightarrow> point \<Rightarrow> idx_range" where
  "oneWay_range xL zL mesh plateThickness pt =
     expand_range (Math_round (plateThickness / mesh)) (moment_range xL zL mesh pt)"

definition twoWay_range :: "rat list \<Rightarrow> rat list \<Rightarrow> rat \<Rightarrow> rat \<Rightarrow> point \<Rightarrow> idx_range" where
  "twoWay_range xL zL mesh plateThickness pt =
     expand_range (Math_round (plateThickness / (2 * mesh))) (moment_range xL zL mesh pt)"

text \<open>The cells visited by the two nested clipped loops, xi outside and zi inside.\<close>

definition range_cells :: "int \<Rightarrow> int \<Rightarrow> idx_range \<Rightarrow> (int \<times> int) list" where
  "range_cells nx_plates nz_plates r =
     (case r of (start_x, end_x, start_z, end_z) \<Rightarrow>
        concat (map (\<lambda>xi. map (\<lambda>zi. (xi, zi)) [max 0 start_z..min nz_plates end_z - 1])
                  [max 0 start_x..min nx_plates end_x - 1]))"

definition add_cell :: "((int \<times> int) \<times> int) list \<Rightarrow> int \<times> int \<Rightarrow> int list \<Rightarrow> int list" where
  "add_cell tbl key s =
     (case map_of tbl key of
        None \<Rightarrow> s
      | Some plateId \<Rightarrow> if plateId \<noteq> 0 then set_add s plateId else s)"

definition add_range ::
  "((int \<times> int) \<times> int) list \<Rightarrow> int \<Rightarrow> int \<Rightarrow> idx_range \<Rightarrow> int list \<Rightarrow> int list" where
  "add_range tbl nx_plates nz_plates r s = fold (add_cell tbl) (range_cells nx_plates nz_plates r) s"

record group_sets =
  momentPlates :: "int list"
  oneWayShearPlates :: "int list"
  twoWayShearPlates :: "int list"

definition group_step ::
  "rat list \<Rightarrow> rat list \<Rightarrow> ((int \<times> int) \<times> int) list \<Rightarrow> rat \<Rightarrow> rat \<Rightarrow> point \<Rightarrow> group_sets \<Rightarrow> group_sets" where
  "group_step xL zL tbl mesh plateThickness pt g =
     (let nx_plates = int (length xL) - 1;
          nz_plates = int (length zL) - 1
      in \<lparr>momentPlates =
             add_range tbl nx_plates nz_plates (moment_range xL zL mesh pt) (momentPlates g),
           oneWayShearPlates =
             add_range tbl nx_plates nz_plates (oneWay_range xL zL mesh plateThickness pt)
               (oneWayShearPlates g),
           twoWayShearPlates =
             add_range tbl nx_plates nz_plates (twoWay_range xL zL mesh plateThickness pt)
               (twoWayShearPlates g)\<rparr>)"

definition group_loop ::
  "rat list \<Rightarrow> rat list \<Rightarrow> ((int \<times> int) \<times> int) list \<Rightarrow> rat \<Rightarrow> rat \<Rightarrow> point list \<Rightarrow> group_sets" where
  "group_loop xL zL tbl mesh plateThickness points =
     fold (group_step xL zL tbl mesh plateThickness) points
       \<lparr>momentPlates = [], oneWayShearPlates = [], twoWayShearPlates = []\<rparr>"

text \<open>The three results of the grouping computation, each sorted ascending.\<close>

definition groupedPlates ::
  "rat list \<Rightarrow> rat list \<Rightarrow> ((int \<times> int) \<times> int) list \<Rightarrow> rat \<Rightarrow> rat \<Rightarrow> point list \<Rightarrow> int list" where
  "groupedPlates xL zL tbl mesh plateThickness points =
     sort (momentPlates (group_loop xL zL tbl mesh plateThickness points))"

definition shearPlates ::
  "rat list \<Rightarrow> rat list \<Rightarrow> ((int \<times> int) \<times> int) list \<Rightarrow> rat \<Rightarrow> rat \<Rightarrow> point list \<Rightarrow> int list" where
  "shearPlates xL zL tbl mesh plateThickness points =
     sort (oneWayShearPlates (group_loop xL zL tbl mesh plateThickness points))"

definition twoWayShearPlates_sorted ::
  "rat list \<Rightarrow> rat list \<Rightarrow> ((int \<times> int) \<times> int) list \<Rightarrow> rat \<Rightarrow> rat \<Rightarrow> point list \<Rightarrow> int list" where
  "twoWayShearPlates_sorted xL zL tbl mesh plateThickness points =
     sort (twoWayShearPlates (group_loop xL zL tbl mesh plateThickness points))"

text \<open>The sets of one pedestal, as the bounding-box computation builds them.\<close>

definition momentPlatesForPedestal ::
  "rat list \<Rightarrow> rat list \<Rightarrow> ((int \<times> int) \<times> int) list \<Rightarrow> rat \<Rightarrow> point \<Rightarrow> int list" where
  "momentPlatesForPedestal xL zL tbl mesh pt =
     add_range tbl (int (length xL) - 1) (int (length zL) - 1) (moment_range xL zL mesh pt) []"

definition oneWayShearPlatesForPedestal ::
  "rat list \<Rightarrow> rat list \<Rightarrow> ((int \<times> int) \<times> int) list \<Rightarrow> rat \<Rightarrow> rat \<Rightarrow> point \<Rightarrow> int list" where
  "oneWayShearPlatesForPedestal xL zL tbl mesh plateThickness pt =
     add_range tbl (int (length xL) - 1) (int (length zL) - 1)
       (oneWay_range xL zL mesh plateThickness pt) []"

definition twoWayShearPlatesForPedestal ::
  "rat list \<Rightarrow> rat list \<Rightarrow> ((int \<times> int) \<times> int) list \<Rightarrow> rat \<Rightarrow> rat \<Rightarrow> point \<Rightarrow> int list" where
  "twoWayShearPlatesForPedestal xL zL tbl mesh plateThickness pt =
     add_range tbl (int (length xL) - 1) (int (length zL) - 1)
       (twoWay_range xL zL mesh plateThickness pt) []"

subsection \<open>Export text\<close>

text \<open>
  \<^verbatim>\<open>String(n)\<close> for an integer, and for a number with at most three decimals: the
  integer part, then the decimals without trailing zeros. (Beyond 1e21 the source
  switches to exponent notation; that is outside the model.)
\<close>

fun show_nat :: "nat \<Rightarrow> string" where
  "show_nat n =
     (if n < 10 then [char_of (48 + n)] else show_nat (n div 10) @ [char_of (48 + n mod 10)])"

declare show_nat.simps [simp del]

definition String_int :: "int \<Rightarrow> string" where
  "String_int i = (if i < 0 then ''-'' @ show_nat (nat (- i)) else show_nat (nat i))"

definition show_decimals :: "nat \<Rightarrow> string" where
  "show_decimals f =
     (if f = 0 then []
      else if f mod 100 = 0 then ''.'' @ show_nat (f div 100)
      else if f mod 10 = 0 then ''.'' @ show_nat (f div 100) @ show_nat (f div 10 mod 10)
      else ''.'' @ show_nat (f div 100) @ show_nat (f div 10 mod 10) @ show_nat (f mod 10))"

definition String_num :: "rat \<Rightarrow> string" where
  "String_num q =
     (let k = nat \<lfloor>\<bar>q\<bar> * 1000\<rfloor> in
      (if q < 0 then ''-'' else []) @ show_nat (k div 1000) @ show_decimals (k mod 1000))"

definition join :: "string \<Rightarrow> string list \<Rightarrow> string" where
  "join sep xs = (case xs of [] \<Rightarrow> [] | y # ys \<Rightarrow> y @ concat (map (\<lambda>s. sep @ s) ys))"

definition toUpperCase :: "string \<Rightarrow> string" where
  "toUpperCase s =
     map (\<lambda>c. let n = (of_char c :: nat) in if 97 \<le> n \<and> n \<le> 122 then char_of (n - 32) else c) s"

text \<open>\<^verbatim>\<open>formatGroupLines\<close>: the state of its loop is (lines, currentLine).\<close>

definition group_line_step :: "int \<Rightarrow> string list \<times> string \<Rightarrow> string list \<times> string" where
  "group_line_step ident st =
     (case st of (lines, currentLine) \<Rightarrow>
        (let idStr = String_int ident;
             potentialNextLine = currentLine @ '' '' @ idStr
         in if length potentialNextLine > 60 then (lines @ [currentLine @ '' -''], idStr)
            else (lines, potentialNextLine)))"

definition formatGroupLines :: "string \<Rightarrow> int list \<Rightarrow> string list" where
  "formatGroupLines groupName ids =
     (case fold group_line_step ids ([], ''_'' @ toUpperCase groupName) of
        (lines, currentLine) \<Rightarrow>
          if currentLine \<noteq> ''_'' @ toUpperCase groupName then lines @ [currentLine] else lines)"

text \<open>
  The packing loop used for the joint coordinates and for the plate incidences,
  over the strings of the entries; the state is (lines, currentLine).
\<close>

definition pack_step :: "string \<Rightarrow> string list \<times> string \<Rightarrow> string list \<times> string" where
  "pack_step entry st =
     (case st of (lines, currentLine) \<Rightarrow>
        if currentLine = [] then (lines, entry)
        else if length (currentLine @ ''; '' @ entry) \<le> 74 then (lines, currentLine @ ''; '' @ entry)
        else (lines @ [currentLine @ '';''], entry))"

definition pack_lines :: "string list \<Rightarrow> string list" where
  "pack_lines entries =
     (case fold pack_step entries ([], []) of
        (lines, currentLine) \<Rightarrow> if currentLine \<noteq> [] then lines @ [currentLine @ '';''] else lines)"

definition jointStr :: "node \<Rightarrow> string" where
  "jointStr n =
     String_int (n_id n) @ '' '' @ String_num (round3 (n_x n)) @ '' '' @
     String_num (round3 (n_y n)) @ '' '' @ String_num (round3 (n_z n))"

definition plateStr :: "plate \<Rightarrow> string" where
  "plateStr p = String_int (p_id p) @ '' '' @ join '' '' (map String_int (p_nodes p))"

definition joint_lines :: "node list \<Rightarrow> string list" where
  "joint_lines ns = pack_lines (map jointStr ns)"

definition element_lines :: "plate list \<Rightarrow> string list" where
  "element_lines ps = pack_lines (map plateStr ps)"

definition group_section :: "int list \<Rightarrow> int list \<Rightarrow> int list \<Rightarrow> string list" where
  "group_section grouped shear twoWay =
     (if length grouped > 0 \<or> length shear > 0 \<or> length twoWay > 0 then
        [''START GROUP DEFINITION'', ''ELEMENT''] @
        (if length grouped > 0 then formatGroupLines ''MOMENT'' grouped else []) @
        (if length shear > 0 then formatGroupLines ''1_WAY_SHEAR'' shear else []) @
        (if length twoWay > 0 then formatGroupLines ''2_WAY_SHEAR'' twoWay else []) @
        [''END GROUP DEFINITION'']
      else [])"

definition property_section :: "plate list \<Rightarrow> rat \<Rightarrow> string list" where
  "property_section ps plateThickness =
     (if length ps > 0 then
        [''ELEMENT PROPERTY'',
         ''1 TO '' @ String_int (int (length ps)) @ '' THICKNESS '' @
           String_num (round3 plateThickness) @ '';'']
      else [])"

text \<open>
  The first \<^verbatim>\<open>members.forEach\<close>: the state is (lines, memberIdMap, memberIdCounter).
\<close>

definition incidence_step ::
  "member \<Rightarrow> string list \<times> (int \<times> int) list \<times> int \<Rightarrow> string list \<times> (int \<times> int) list \<times> int" where
  "incidence_step m st =
     (case st of (lines, memberIdMap, memberIdCounter) \<Rightarrow>
        (lines @ [String_int memberIdCounter @ '' '' @ String_int (startNode m) @ '' '' @
                  String_int (endNode m) @ '';''],
         (pt_id (pointData m), memberIdCounter) # memberIdMap,
         memberIdCounter + 1))"

definition property_step :: "(int \<times> int) list \<Rightarrow> member \<Rightarrow> string list \<Rightarrow> string list" where
  "property_step memberIdMap m lines =
     (case map_of memberIdMap (pt_id (pointData m)) of
        None \<Rightarrow> lines
      | Some memberId \<Rightarrow>
          if memberId \<noteq> 0 then
            lines @ [String_int memberId @ '' PRISM YD '' @
                     String_num (round3 (pt_length (pointData m))) @ '' ZD '' @
                     String_num (round3 (pt_width (pointData m))) @ '';'']
          else lines)"

definition member_section :: "plate list \<Rightarrow> member list \<Rightarrow> string list" where
  "member_section ps ms =
     (let lastPlateId = (if length ps > 0 then p_id (last ps) else 0) in
      if length ms > 0 then
        (case fold incidence_step ms ([''MEMBER INCIDENCES''], [], lastPlateId + 1) of
           (lines, memberIdMap, memberIdCounter) \<Rightarrow>
             fold (property_step memberIdMap) ms
               (lines @
                [''DEFINE MATERIAL START'', ''ISOTROPIC CONCRETE'', ''E 2.17185e+07'',
                 ''POISSON 0.17'', ''DENSITY 23.5616'', ''ALPHA 1e-05'', ''DAMP 0.05'',
                 ''G 9.28139e+06'', ''TYPE CONCRETE'', ''STRENGTH FCU 27579'',
                 ''END DEFINE MATERIAL'', ''CONSTANTS'', ''MATERIAL CONCRETE ALL'',
                 ''MEMBER PROPERTY'']))
      else [])"

text \<open>
  The lines of the export, in order; \<open>formattedDate\<close> is the formatted current date.
\<close>

definition export_lines ::
  "string \<Rightarrow> node list \<Rightarrow> plate list \<Rightarrow> member list \<Rightarrow> rat \<Rightarrow> int list \<Rightarrow> int list \<Rightarrow> int list
     \<Rightarrow> string list" where
  "export_lines formattedDate ns ps ms plateThickness grouped shear twoWay =
     [''STAAD SPACE'', ''START JOB INFORMATION'', ''ENGINEER DATE '' @ formattedDate,
      ''END JOB INFORMATION'', ''INPUT WIDTH 79'', ''UNIT METER KN'', ''JOINT COORDINATES''] @
     joint_lines ns @
     [''ELEMENT INCIDENCES SHELL''] @
     element_lines ps @
     group_section grouped shear twoWay @
     property_section ps plateThickness @
     member_section ps ms @
     [''FINISH'']"

definition exportText ::
  "string \<Rightarrow> node list \<Rightarrow> plate list \<Rightarrow> member list \<Rightarrow> rat \<Rightarrow> int list \<Rightarrow> int list \<Rightarrow> int list
     \<Rightarrow> string" where
  "exportText formattedDate ns ps ms plateThickness grouped shear twoWay =
     join [CHR 0x0A] (export_lines formattedDate ns ps ms plateThickness grouped shear twoWay)"

subsection \<open>Auxiliary notions for the statements\<close>


text \<open>The ids handed out so far are 1, 2, ... in order, and the counter is the next one.\<close>

definition node_inv :: "synth \<Rightarrow> bool" where
  "node_inv st \<longleftrightarrow>
     nodeIdCounter st = int (length (allNodes st)) + 1 \<and>
     map n_id (allNodes st) = [1..int (length (allNodes st))]"

definition plate_inv :: "synth \<Rightarrow> bool" where
  "plate_inv st \<longleftrightarrow>
     plateIdCounter st = int (length (newPlates st)) + 1 \<and>
     map p_id (newPlates st) = [1..int (length (newPlates st))]"

text \<open>
  A pedestal lands on a grid intersection when its centre, rounded to three
  decimals, has the rounded coordinates of some surface node.
\<close>

definition on_grid :: "rat list \<Rightarrow> rat list \<Rightarrow> point \<Rightarrow> bool" where
  "on_grid xL zL pt \<longleftrightarrow>
     (\<exists>x\<in>set xL. \<exists>z\<in>set zL. round3 (pt_x pt) = round3 x \<and> round3 (pt_z pt) = round3 z)"

text \<open>An id refers to a node of the given kind in a node list.\<close>

definition refers_to :: "node list \<Rightarrow> node_type \<Rightarrow> int \<Rightarrow> bool" where
  "refers_to ns k i \<longleftrightarrow> (\<exists>n\<in>set ns. n_id n = i \<and> n_type n = k)"

text \<open>The plate-coordinate map that the mesh computation hands to the grouping.\<close>

definition plateIdTable ::
  "rat list \<Rightarrow> rat list \<Rightarrow> rat \<Rightarrow> point list \<Rightarrow> string \<Rightarrow> ((int \<times> int) \<times> int) list" where
  "plateIdTable xL zL pedestalHeight points zOrientation =
     plateIdByCoord (mesh_synth xL zL pedestalHeight points zOrientation)"

text \<open>The plate ids that the lookups of a list of cells deliver.\<close>

definition cell_ids :: "((int \<times> int) \<times> int) list \<Rightarrow> (int \<times> int) list \<Rightarrow> int set" where
  "cell_ids tbl cells = {v. \<exists>key\<in>set cells. map_of tbl key = Some v \<and> v \<noteq> 0}"

text \<open>
  The rounding that \<open>uniqSorted\<close> applies to each value, and the description of a
  division point: it lies at a + j * step, more than 1e-9 inside an interval
  (a, b) of adjacent cuts.
\<close>

definition round_eps :: "rat \<Rightarrow> rat \<Rightarrow> rat" where
  "round_eps eps x = of_int (Math_round (x / eps)) * eps"

definition interior_point :: "rat \<Rightarrow> rat list \<Rightarrow> rat \<Rightarrow> bool" where
  "interior_point step cuts t \<longleftrightarrow>
     (\<exists>(a, b)\<in>set (zip cuts (tl cuts)). \<exists>j\<ge>1.
        t = a + of_int j * step \<and> a + 1 / 1000000000 < t \<and> t < b - 1 / 1000000000)"

text \<open>The values 0, step, 2 * step, ..., n * step.\<close>

definition evenly_spaced :: "rat \<Rightarrow> int \<Rightarrow> rat list" where
  "evenly_spaced step n = map (\<lambda>j. of_int j * step) [0..n]"

section \<open>Verified properties\<close>

subsection \<open>Loops preserve invariants\<close>

lemma fold_invariant:
  assumes "P s" and "\<And>x s. x \<in> set xs \<Longrightarrow> P s \<Longrightarrow> P (f x s)"
  shows "P (fold f xs s)"
  using assms by (induction xs arbitrary: s) auto


lemma surface_loop_invariant:
  assumes "P st" and "\<And>z x s. z \<in> set zs \<Longrightarrow> x \<in> set xs \<Longrightarrow> P s \<Longrightarrow> P (surface_step z x s)"
  shows "P (surface_loop xs zs st)"
  unfolding surface_loop_def
  by (rule fold_invariant[where P = P, OF assms(1)], rule fold_invariant[where P = P])
     (auto intro: assms(2))

lemma pedestal_loop_invariant:
  assumes "P st" and "\<And>pt s. pt \<in> set points \<Longrightarrow> P s \<Longrightarrow> P (pedestal_step h pt s)"
  shows "P (pedestal_loop h points st)"
  unfolding pedestal_loop_def using assms by (auto intro: fold_invariant[where P = P])

lemma plate_loop_invariant:
  assumes "P st"
    and "\<And>zi xi s. 0 \<le> zi \<Longrightarrow> zi \<le> nZ - 2 \<Longrightarrow> 0 \<le> xi \<Longrightarrow> xi \<le> nX - 2 \<Longrightarrow> P s
           \<Longrightarrow> P (plate_step ori nX zi xi s)"
  shows "P (plate_loop ori nX nZ st)"
  unfolding plate_loop_def
  by (rule fold_invariant[where P = P, OF assms(1)], rule fold_invariant[where P = P])
     (auto intro: assms(2))


lemma before_plates:
  "newPlates (pedestal_loop h points (surface_loop xs zs synth_init)) = [] \<and>
   plateIdCounter (pedestal_loop h points (surface_loop xs zs synth_init)) = 1 \<and>
   plateIdByCoord (pedestal_loop h points (surface_loop xs zs synth_init)) = []"
  apply (rule pedestal_loop_invariant)
   apply (rule surface_loop_invariant)
    apply (simp add: synth_init_def)
   apply (simp add: surface_step_def Let_def)
  apply (simp add: pedestal_step_def Let_def split: option.splits)
  done

subsection \<open>Plate node order\<close>


subsection \<open>Sets as duplicate-free lists\<close>

lemma set_set_add [simp]: "set (set_add s x) = insert x (set s)"
  by (auto simp: set_add_def)

lemma distinct_set_add [simp]: "distinct (set_add s x) = distinct s"
  by (auto simp: set_add_def)

lemma set_fold_set_add: "set (fold (\<lambda>x s. set_add s x) xs s) = set s \<union> set xs"
  by (induction xs arbitrary: s) auto

lemma distinct_fold_set_add: "distinct s \<Longrightarrow> distinct (fold (\<lambda>x s. set_add s x) xs s)"
  by (induction xs arbitrary: s) auto

lemma set_new_Set [simp]: "set (new_Set xs) = set xs"
  by (simp add: new_Set_def set_fold_set_add)

lemma distinct_new_Set [simp]: "distinct (new_Set xs)"
  by (simp add: new_Set_def distinct_fold_set_add)

subsection \<open>Node and plate ids\<close>

lemma upto_extend: "0 \<le> n \<Longrightarrow> [1..1 + n] = [1..n] @ [n + 1]"
  using upto_rec2[of 1 "1 + n"] by (simp add: add.commute)

lemma node_inv_surface_step: "node_inv st \<Longrightarrow> node_inv (surface_step z x st)"
  by (simp add: node_inv_def surface_step_def Let_def upto_extend)

lemma node_inv_pedestal_step: "node_inv st \<Longrightarrow> node_inv (pedestal_step h pt st)"
  by (simp add: node_inv_def pedestal_step_def Let_def upto_extend split: option.splits)

lemma node_inv_plate_step: "node_inv st \<Longrightarrow> node_inv (plate_step ori nX zi xi st)"
  by (simp add: node_inv_def plate_step_def Let_def)

lemma plate_inv_plate_step: "plate_inv st \<Longrightarrow> plate_inv (plate_step ori nX zi xi st)"
  by (simp add: plate_inv_def plate_step_def Let_def upto_extend)

lemma node_inv_mesh_synth: "node_inv (mesh_synth xL zL h points ori)"
  unfolding mesh_synth_def
  apply (rule plate_loop_invariant)
   apply (rule pedestal_loop_invariant)
    apply (rule surface_loop_invariant)
     apply (simp add: node_inv_def synth_init_def)
    apply (erule node_inv_surface_step)
   apply (erule node_inv_pedestal_step)
  apply (erule node_inv_plate_step)
  done

lemma plate_inv_mesh_synth: "plate_inv (mesh_synth xL zL h points ori)"
  unfolding mesh_synth_def
  apply (rule plate_loop_invariant)
   apply (simp add: plate_inv_def before_plates)
  apply (erule plate_inv_plate_step)
  done

lemma node_ids: "map n_id (nodes xL zL h points ori) = [1..int (length (nodes xL zL h points ori))]"
  using node_inv_mesh_synth[of xL zL h points ori] by (simp add: node_inv_def nodes_def)

lemma plate_ids: "map p_id (plates xL zL h points ori) = [1..int (length (plates xL zL h points ori))]"
  using plate_inv_mesh_synth[of xL zL h points ori] by (simp add: plate_inv_def plates_def)

lemma plate_id_set: "p_id ` set (plates xL zL h points ori) = {1..int (length (plates xL zL h points ori))}"
proof -
  have "set (map p_id (plates xL zL h points ori)) = {1..int (length (plates xL zL h points ori))}"
    by (simp only: plate_ids set_upto)
  then show ?thesis by simp
qed

lemma property_section_in_export:
  "set (property_section ps t) \<subseteq> set (export_lines d ns ps ms t g s w)"
  by (simp add: export_lines_def) blast

lemma property_section_line:
  "property_section ps t =
     (if ps = [] then []
      else [''ELEMENT PROPERTY'',
            ''1 TO '' @ String_int (int (length ps)) @ '' THICKNESS '' @
            String_num (round3 t) @ '';''])"
  by (simp add: property_section_def)

text \<open>
  Claim C10. The node ids are 1, 2, ..., |nodes| and the plate ids 1, 2, ..., |plates|, each
  once and in order, whatever pedestals are skipped; the ELEMENT PROPERTY section
  of the export, present when there are plates, is the line "1 TO n THICKNESS t;"
  with n the number of plates, so that 1 TO n names exactly the set of all plate ids.
\<close>

theorem ids_contiguous:
  "map n_id (nodes xL zL h points ori) = [1..int (length (nodes xL zL h points ori))] \<and>
   map p_id (plates xL zL h points ori) = [1..int (length (plates xL zL h points ori))] \<and>
   p_id ` set (plates xL zL h points ori) = {1..int (length (plates xL zL h points ori))} \<and>
   property_section (plates xL zL h points ori) t =
     (if plates xL zL h points ori = [] then []
      else [''ELEMENT PROPERTY'',
            ''1 TO '' @ String_int (int (length (plates xL zL h points ori))) @
            '' THICKNESS '' @ String_num (round3 t) @ '';'']) \<and>
   set (property_section (plates xL zL h points ori) t) \<subseteq>
     set (export_lines d (nodes xL zL h points ori) (plates xL zL h points ori)
            (members xL zL h points ori) t g s w)"
  by (intro conjI node_ids plate_ids plate_id_set property_section_line property_section_in_export)

subsection \<open>Counting nodes and plates\<close>

lemma fold_count:
  assumes "\<And>x s. c (f x s) = c s + (k :: nat)"
  shows "c (fold f xs s) = c s + k * length xs"
  by (induction xs arbitrary: s) (simp_all add: assms)

lemma fold_keys_Un:
  assumes "\<And>x s. K (f x s) = K s \<union> G x"
  shows "K (fold f xs s) = K s \<union> (\<Union>x\<in>set xs. G x)"
  by (induction xs arbitrary: s) (auto simp: assms)

lemma fold_unchanged:
  assumes "\<And>x s. c (f x s) = c s"
  shows "c (fold f xs s) = c s"
  by (induction xs arbitrary: s) (simp_all add: assms)

lemma length_surface_loop:
  "length (allNodes (surface_loop xs zs st)) = length (allNodes st) + length xs * length zs"
proof -
  have "\<And>z s. length (allNodes (fold (surface_step z) xs s)) = length (allNodes s) + 1 * length xs"
    by (rule fold_count[where c = "\<lambda>s. length (allNodes s)"]) (simp add: surface_step_def Let_def)
  then have inner: "\<And>z s. length (allNodes (fold (surface_step z) xs s)) = length (allNodes s) + length xs"
    by simp
  show ?thesis
    unfolding surface_loop_def
    by (rule fold_count[where c = "\<lambda>s. length (allNodes s)"]) (rule inner)
qed

lemma keys_surface_loop:
  "fst ` set (surfaceNodesByCoord (surface_loop xs zs st)) =
     fst ` set (surfaceNodesByCoord st) \<union> (\<Union>z\<in>set zs. \<Union>x\<in>set xs. {(round3 x, round3 z)})"
proof -
  have inner: "\<And>z s. fst ` set (surfaceNodesByCoord (fold (surface_step z) xs s)) =
      fst ` set (surfaceNodesByCoord s) \<union> (\<Union>x\<in>set xs. {(round3 x, round3 z)})"
    by (rule fold_keys_Un) (simp add: surface_step_def Let_def)
  show ?thesis
    unfolding surface_loop_def
    by (rule fold_keys_Un[where K = "\<lambda>s. fst ` set (surfaceNodesByCoord s)"]) (rule inner)
qed

lemma surface_table_pedestal_fold:
  "surfaceNodesByCoord (fold (pedestal_step h) points st) = surfaceNodesByCoord st"
  by (rule fold_unchanged) (simp add: pedestal_step_def Let_def split: option.splits)

lemma length_pedestal_fold:
  "length (allNodes (fold (pedestal_step h) points st)) =
     length (allNodes st) +
     length (filter (\<lambda>pt. \<exists>v. map_of (surfaceNodesByCoord st) (round3 (pt_x pt), round3 (pt_z pt)) = Some v
                               \<and> v \<noteq> 0) points)"
proof (induction points arbitrary: st)
  case Nil
  then show ?case by simp
next
  case (Cons pt points)
  have tbl: "surfaceNodesByCoord (pedestal_step h pt st) = surfaceNodesByCoord st"
    by (simp add: pedestal_step_def Let_def split: option.splits)
  show ?case
    by (simp add: Cons.IH tbl) (simp add: pedestal_step_def Let_def split: option.splits)
qed

lemma length_members_pedestal_fold:
  "length (newMembers (fold (pedestal_step h) points st)) =
     length (newMembers st) +
     length (filter (\<lambda>pt. \<exists>v. map_of (surfaceNodesByCoord st) (round3 (pt_x pt), round3 (pt_z pt)) = Some v
                               \<and> v \<noteq> 0) points)"
proof (induction points arbitrary: st)
  case Nil
  then show ?case by simp
next
  case (Cons pt points)
  have tbl: "surfaceNodesByCoord (pedestal_step h pt st) = surfaceNodesByCoord st"
    by (simp add: pedestal_step_def Let_def split: option.splits)
  show ?case
    by (simp add: Cons.IH tbl) (simp add: pedestal_step_def Let_def split: option.splits)
qed

text \<open>Every id stored in the surface table is positive.\<close>

lemma surface_table_positive:
  "\<forall>e\<in>set (surfaceNodesByCoord (surface_loop xs zs synth_init)). 0 < snd e"
proof -
  let ?P = "\<lambda>s. 0 < nodeIdCounter s \<and> (\<forall>e\<in>set (surfaceNodesByCoord s). 0 < snd e)"
  have "?P (surface_loop xs zs synth_init)"
    by (rule surface_loop_invariant) (auto simp: synth_init_def surface_step_def Let_def)
  then show ?thesis by simp
qed

lemma surface_lookup_on_grid:
  "(\<exists>v. map_of (surfaceNodesByCoord (surface_loop xL zL synth_init))
          (round3 (pt_x pt), round3 (pt_z pt)) = Some v \<and> v \<noteq> 0) \<longleftrightarrow> on_grid xL zL pt"
proof -
  let ?tbl = "surfaceNodesByCoord (surface_loop xL zL synth_init)"
  let ?k = "(round3 (pt_x pt), round3 (pt_z pt))"
  have keys: "?k \<in> fst ` set ?tbl \<longleftrightarrow> on_grid xL zL pt"
    by (auto simp: keys_surface_loop synth_init_def on_grid_def)
  have "(\<exists>v. map_of ?tbl ?k = Some v \<and> v \<noteq> 0) \<longleftrightarrow> (\<exists>v. map_of ?tbl ?k = Some v)"
    using surface_table_positive[of xL zL] by (fastforce dest: map_of_SomeD)
  also have "\<dots> \<longleftrightarrow> ?k \<in> fst ` set ?tbl"
    using map_of_eq_None_iff[of ?tbl ?k] by auto
  finally show ?thesis using keys by simp
qed

lemma length_nodes_before_plates:
  "length (allNodes (pedestal_loop h points (surface_loop xL zL synth_init))) =
     length xL * length zL +
     (if h > 1 / 1000000000 then length (filter (on_grid xL zL) points) else 0)"
proof -
  have "allNodes synth_init = []" by (simp add: synth_init_def)
  then show ?thesis
    by (simp add: pedestal_loop_def length_pedestal_fold length_surface_loop surface_lookup_on_grid)
qed

lemma length_members_before_plates:
  "length (newMembers (pedestal_loop h points (surface_loop xL zL synth_init))) =
     (if h > 1 / 1000000000 then length (filter (on_grid xL zL) points) else 0)"
proof -
  have "newMembers (surface_loop xL zL synth_init) = []"
    by (rule surface_loop_invariant) (simp_all add: synth_init_def surface_step_def Let_def)
  then show ?thesis
    by (simp add: pedestal_loop_def length_members_pedestal_fold surface_lookup_on_grid)
qed

lemma plate_loop_keeps_nodes:
  "allNodes (plate_loop ori nX nZ st) = allNodes st \<and>
   newMembers (plate_loop ori nX nZ st) = newMembers st"
  by (rule plate_loop_invariant) (simp_all add: plate_step_def Let_def)

lemma length_plate_loop:
  "length (newPlates (plate_loop ori nX nZ st)) =
     length (newPlates st) + nat (nX - 1) * nat (nZ - 1)"
proof -
  have "\<And>zi s. length (newPlates (fold (plate_step ori nX zi) [0..nX - 2] s)) =
      length (newPlates s) + 1 * length [0..nX - 2]"
    by (rule fold_count[where c = "\<lambda>s. length (newPlates s)"]) (simp add: plate_step_def Let_def)
  then have inner: "\<And>zi s. length (newPlates (fold (plate_step ori nX zi) [0..nX - 2] s)) =
      length (newPlates s) + nat (nX - 1)"
    by simp
  have "length (newPlates (plate_loop ori nX nZ st)) =
      length (newPlates st) + nat (nX - 1) * length [0..nZ - 2]"
    unfolding plate_loop_def
    by (rule fold_count[where c = "\<lambda>s. length (newPlates s)"]) (rule inner)
  then show ?thesis by simp
qed

lemma length_nodes:
  "length (nodes xL zL h points ori) =
     length xL * length zL +
     (if h > 1 / 1000000000 then length (filter (on_grid xL zL) points) else 0)"
  by (simp add: nodes_def mesh_synth_def plate_loop_keeps_nodes length_nodes_before_plates)

lemma length_members:
  "length (members xL zL h points ori) =
     (if h > 1 / 1000000000 then length (filter (on_grid xL zL) points) else 0)"
  by (simp add: members_def mesh_synth_def plate_loop_keeps_nodes length_members_before_plates)

lemma length_plates:
  "length (plates xL zL h points ori) = (length xL - 1) * (length zL - 1)"
  by (simp add: plates_def mesh_synth_def length_plate_loop before_plates nat_diff_distrib')

text \<open>
  Claim C4, amended. The number of nodes is |xLines| * |zLines| plus, when the
  pedestal height exceeds 1e-9 (not merely 0), the number of pedestals whose
  rounded centre is the rounded position of a grid intersection; for non-empty
  grid lines the number of plates is (|xLines| - 1) * (|zLines| - 1). (The grid
  computation never returns an empty sequence: lemma \<open>grid_lines_nonempty\<close>.)
\<close>

theorem node_plate_counts:
  assumes "xL \<noteq> []" and "zL \<noteq> []"
  shows "int (length (nodes xL zL h points ori)) =
           int (length xL) * int (length zL) +
           (if h > 1 / 1000000000 then int (length (filter (on_grid xL zL) points)) else 0) \<and>
         int (length (plates xL zL h points ori)) =
           (int (length xL) - 1) * (int (length zL) - 1)"
proof -
  have x: "int (length xL - 1) = int (length xL) - 1" using assms(1) by (cases xL) simp_all
  have z: "int (length zL - 1) = int (length zL) - 1" using assms(2) by (cases zL) simp_all
  have "int (length (plates xL zL h points ori)) = int (length xL - 1) * int (length zL - 1)"
    by (simp only: length_plates of_nat_mult)
  then have "int (length (plates xL zL h points ori)) = (int (length xL) - 1) * (int (length zL) - 1)"
    by (simp only: x z)
  then show ?thesis by (simp add: length_nodes)
qed
theorem node_plate_counts_witness:
  "[0, 1 :: rat] \<noteq> [] \<and>
   int (length (nodes [0, 1] [0, 1] (1 / 2)
          [\<lparr>pt_id = 1, pt_x = 0, pt_z = 0, pt_length = 1 / 2, pt_width = 3 / 10\<rparr>] ''down'')) = 5 \<and>
   int (length (plates [0, 1] [0, 1] (1 / 2)
          [\<lparr>pt_id = 1, pt_x = 0, pt_z = 0, pt_length = 1 / 2, pt_width = 3 / 10\<rparr>] ''down'')) = 1"
  using node_plate_counts[of "[0, 1]" "[0, 1]" "1 / 2"
      "[\<lparr>pt_id = 1, pt_x = 0, pt_z = 0, pt_length = 1 / 2, pt_width = 3 / 10\<rparr>]" "''down''"]
  by (simp add: on_grid_def round3_def Math_round_def)

text \<open>
  With plan 1 by 1, mesh 1, one pedestal at the corner (0, 0) and pedestal height
  1e-10 the height is positive and the pedestal is on the grid, but only the four
  surface nodes are generated.
\<close>

theorem node_count_small_height_counterexample:
  "xLines 1 1 [\<lparr>pt_id = 1, pt_x = 0, pt_z = 0, pt_length = 1 / 2, pt_width = 3 / 10\<rparr>] = Some [0, 1] \<and>
   zLines 1 1 [\<lparr>pt_id = 1, pt_x = 0, pt_z = 0, pt_length = 1 / 2, pt_width = 3 / 10\<rparr>] = Some [0, 1] \<and>
   int (length (nodes [0, 1] [0, 1] (1 / 10000000000)
          [\<lparr>pt_id = 1, pt_x = 0, pt_z = 0, pt_length = 1 / 2, pt_width = 3 / 10\<rparr>] ''down'')) \<noteq>
     int (length [0, 1 :: rat]) * int (length [0, 1 :: rat]) +
     (if (0 :: rat) < 1 / 10000000000
      then int (length (filter (on_grid [0, 1] [0, 1])
             [\<lparr>pt_id = 1, pt_x = 0, pt_z = 0, pt_length = 1 / 2, pt_width = 3 / 10\<rparr>]))
      else 0)"
  by code_simp

subsection \<open>Index ranges and group sets\<close>

lemma set_add_cell:
  "set (add_cell tbl key s) = set s \<union> cell_ids tbl [key]"
  by (auto simp: add_cell_def cell_ids_def split: option.splits)

lemma cell_ids_Cons: "cell_ids tbl (key # cells) = cell_ids tbl [key] \<union> cell_ids tbl cells"
  by (auto simp: cell_ids_def)

lemma cell_ids_Nil [simp]: "cell_ids tbl [] = {}"
  by (simp add: cell_ids_def)

lemma set_fold_add_cell: "set (fold (add_cell tbl) cells s) = set s \<union> cell_ids tbl cells"
proof (induction cells arbitrary: s)
  case Nil
  then show ?case by simp
next
  case (Cons key cells)
  show ?case by (simp add: Cons.IH set_add_cell cell_ids_Cons[of tbl key cells] Un_assoc)
qed

lemma set_add_range:
  "set (add_range tbl nx nz r s) = set s \<union> cell_ids tbl (range_cells nx nz r)"
  by (simp add: add_range_def set_fold_add_cell)

lemma cell_ids_mono: "set cells \<subseteq> set cells' \<Longrightarrow> cell_ids tbl cells \<subseteq> cell_ids tbl cells'"
  by (auto simp: cell_ids_def)

lemma in_concat_pairs:
  "(a, b) \<in> set (concat (map (\<lambda>x. map (\<lambda>y. (x, y)) ys) xs)) \<longleftrightarrow> a \<in> set xs \<and> b \<in> set ys"
  by auto

lemma in_range_cells:
  "(xi, zi) \<in> set (range_cells nx nz (sx, ex, sz, ez)) \<longleftrightarrow>
     max 0 sx \<le> xi \<and> xi < min nx ex \<and> max 0 sz \<le> zi \<and> zi < min nz ez"
proof -
  have "(xi, zi) \<in> set (range_cells nx nz (sx, ex, sz, ez)) \<longleftrightarrow>
      xi \<in> {max 0 sx..min nx ex - 1} \<and> zi \<in> {max 0 sz..min nz ez - 1}"
    by (simp only: range_cells_def prod.case in_concat_pairs set_upto)
  also have "\<dots> \<longleftrightarrow> max 0 sx \<le> xi \<and> xi < min nx ex \<and> max 0 sz \<le> zi \<and> zi < min nz ez"
    by (simp only: atLeastAtMost_iff) linarith
  finally show ?thesis .
qed

lemma range_cells_expand_mono:
  assumes "k \<le> k'"
  shows "set (range_cells nx nz (expand_range k r)) \<subseteq> set (range_cells nx nz (expand_range k' r))"
proof -
  obtain sx ex sz ez where r: "r = (sx, ex, sz, ez)" by (cases r) auto
  show ?thesis
    using assms unfolding r expand_range_def by (auto simp: in_range_cells)
qed

lemma expand_range_0 [simp]: "expand_range 0 r = r"
  by (cases r) (simp add: expand_range_def)

lemma Math_round_mono: "x \<le> y \<Longrightarrow> Math_round x \<le> Math_round y"
  by (simp add: Math_round_def floor_mono)

lemma Math_round_nonneg: "0 \<le> x \<Longrightarrow> 0 \<le> Math_round x"
  by (simp add: Math_round_def)

lemma oneWay_expansion_nonneg:
  assumes "0 < mesh" and "0 < plateThickness"
  shows "0 \<le> Math_round (plateThickness / mesh)"
  using assms by (intro Math_round_nonneg) simp

lemma twoWay_expansion_le_oneWay:
  assumes "0 < mesh" and "0 < plateThickness"
  shows "Math_round (plateThickness / (2 * mesh)) \<le> Math_round (plateThickness / mesh)"
proof (rule Math_round_mono)
  have "plateThickness / (2 * mesh) = (plateThickness / mesh) / 2" by simp
  moreover have "0 < plateThickness / mesh" using assms by simp
  ultimately show "plateThickness / (2 * mesh) \<le> plateThickness / mesh" by linarith
qed

lemma moment_cells_in_oneWay:
  assumes "0 < mesh" and "0 < plateThickness"
  shows "set (range_cells nx nz (moment_range xL zL mesh pt)) \<subseteq>
         set (range_cells nx nz (oneWay_range xL zL mesh plateThickness pt))"
  using range_cells_expand_mono[OF oneWay_expansion_nonneg[OF assms], of nx nz "moment_range xL zL mesh pt"]
  by (simp add: oneWay_range_def)

lemma twoWay_cells_in_oneWay:
  assumes "0 < mesh" and "0 < plateThickness"
  shows "set (range_cells nx nz (twoWay_range xL zL mesh plateThickness pt)) \<subseteq>
         set (range_cells nx nz (oneWay_range xL zL mesh plateThickness pt))"
  unfolding oneWay_range_def twoWay_range_def
  by (rule range_cells_expand_mono[OF twoWay_expansion_le_oneWay[OF assms]])

text \<open>The three accumulated sets are the unions of the per-pedestal sets.\<close>

lemma set_group_loop:
  "set (momentPlates (group_loop xL zL tbl mesh t points)) =
     (\<Union>pt\<in>set points. cell_ids tbl (range_cells (int (length xL) - 1) (int (length zL) - 1)
        (moment_range xL zL mesh pt)))"
  "set (oneWayShearPlates (group_loop xL zL tbl mesh t points)) =
     (\<Union>pt\<in>set points. cell_ids tbl (range_cells (int (length xL) - 1) (int (length zL) - 1)
        (oneWay_range xL zL mesh t pt)))"
  "set (twoWayShearPlates (group_loop xL zL tbl mesh t points)) =
     (\<Union>pt\<in>set points. cell_ids tbl (range_cells (int (length xL) - 1) (int (length zL) - 1)
        (twoWay_range xL zL mesh t pt)))"
proof -
  let ?g0 = "\<lparr>momentPlates = [], oneWayShearPlates = [], twoWayShearPlates = []\<rparr>"
  have "set (momentPlates (fold (group_step xL zL tbl mesh t) points ?g0)) =
      set (momentPlates ?g0) \<union>
      (\<Union>pt\<in>set points. cell_ids tbl (range_cells (int (length xL) - 1) (int (length zL) - 1)
        (moment_range xL zL mesh pt)))"
    by (rule fold_keys_Un[where K = "\<lambda>g. set (momentPlates g)"])
       (simp add: group_step_def Let_def set_add_range)
  then show "set (momentPlates (group_loop xL zL tbl mesh t points)) =
     (\<Union>pt\<in>set points. cell_ids tbl (range_cells (int (length xL) - 1) (int (length zL) - 1)
        (moment_range xL zL mesh pt)))"
    by (simp add: group_loop_def)
  have "set (oneWayShearPlates (fold (group_step xL zL tbl mesh t) points ?g0)) =
      set (oneWayShearPlates ?g0) \<union>
      (\<Union>pt\<in>set points. cell_ids tbl (range_cells (int (length xL) - 1) (int (length zL) - 1)
        (oneWay_range xL zL mesh t pt)))"
    by (rule fold_keys_Un[where K = "\<lambda>g. set (oneWayShearPlates g)"])
       (simp add: group_step_def Let_def set_add_range)
  then show "set (oneWayShearPlates (group_loop xL zL tbl mesh t points)) =
     (\<Union>pt\<in>set points. cell_ids tbl (range_cells (int (length xL) - 1) (int (length zL) - 1)
        (oneWay_range xL zL mesh t pt)))"
    by (simp add: group_loop_def)
  have "set (twoWayShearPlates (fold (group_step xL zL tbl mesh t) points ?g0)) =
      set (twoWayShearPlates ?g0) \<union>
      (\<Union>pt\<in>set points. cell_ids tbl (range_cells (int (length xL) - 1) (int (length zL) - 1)
        (twoWay_range xL zL mesh t pt)))"
    by (rule fold_keys_Un[where K = "\<lambda>g. set (twoWayShearPlates g)"])
       (simp add: group_step_def Let_def set_add_range)
  then show "set (twoWayShearPlates (group_loop xL zL tbl mesh t points)) =
     (\<Union>pt\<in>set points. cell_ids tbl (range_cells (int (length xL) - 1) (int (length zL) - 1)
        (twoWay_range xL zL mesh t pt)))"
    by (simp add: group_loop_def)
qed

text \<open>
  Claim C5. With plate thickness and mesh step positive, the moment plates of a
  pedestal are among its one-way-shear plates, and the MOMENT group (the union over
  all pedestals) is contained in the 1_WAY_SHEAR group: the one-way range is the
  moment range widened by round(t/m), which is not negative, on every side.
\<close>

theorem moment_subset_oneWay:
  assumes "0 < mesh" and "0 < plateThickness"
  shows "set (momentPlatesForPedestal xL zL tbl mesh pt) \<subseteq>
           set (oneWayShearPlatesForPedestal xL zL tbl mesh plateThickness pt) \<and>
         set (groupedPlates xL zL tbl mesh plateThickness points) \<subseteq>
           set (shearPlates xL zL tbl mesh plateThickness points)"
proof
  show "set (momentPlatesForPedestal xL zL tbl mesh pt) \<subseteq>
        set (oneWayShearPlatesForPedestal xL zL tbl mesh plateThickness pt)"
    by (simp add: momentPlatesForPedestal_def oneWayShearPlatesForPedestal_def set_add_range
        cell_ids_mono[OF moment_cells_in_oneWay[OF assms]])
  have "\<And>q. cell_ids tbl (range_cells (int (length xL) - 1) (int (length zL) - 1)
                (moment_range xL zL mesh q)) \<subseteq>
            cell_ids tbl (range_cells (int (length xL) - 1) (int (length zL) - 1)
                (oneWay_range xL zL mesh plateThickness q))"
    by (rule cell_ids_mono[OF moment_cells_in_oneWay[OF assms]])
  then show "set (groupedPlates xL zL tbl mesh plateThickness points) \<subseteq>
        set (shearPlates xL zL tbl mesh plateThickness points)"
    by (simp add: groupedPlates_def shearPlates_def set_group_loop) blast
qed

theorem moment_subset_oneWay_witness:
  "(0 :: rat) < 1 / 5 \<and> (0 :: rat) < 3 / 10 \<and>
   set (momentPlatesForPedestal [0, 1 / 5, 2 / 5, 3 / 5] [0, 1 / 5, 2 / 5]
          (plateIdTable [0, 1 / 5, 2 / 5, 3 / 5] [0, 1 / 5, 2 / 5] 0 [] ''down'') (1 / 5)
          \<lparr>pt_id = 1, pt_x = 1 / 5, pt_z = 1 / 5, pt_length = 1 / 2, pt_width = 3 / 10\<rparr>) \<subseteq>
   set (oneWayShearPlatesForPedestal [0, 1 / 5, 2 / 5, 3 / 5] [0, 1 / 5, 2 / 5]
          (plateIdTable [0, 1 / 5, 2 / 5, 3 / 5] [0, 1 / 5, 2 / 5] 0 [] ''down'') (1 / 5) (3 / 10)
          \<lparr>pt_id = 1, pt_x = 1 / 5, pt_z = 1 / 5, pt_length = 1 / 2, pt_width = 3 / 10\<rparr>) \<and>
   set (groupedPlates [0, 1 / 5, 2 / 5, 3 / 5] [0, 1 / 5, 2 / 5]
          (plateIdTable [0, 1 / 5, 2 / 5, 3 / 5] [0, 1 / 5, 2 / 5] 0 [] ''down'') (1 / 5) (3 / 10)
          [\<lparr>pt_id = 1, pt_x = 1 / 5, pt_z = 1 / 5, pt_length = 1 / 2, pt_width = 3 / 10\<rparr>]) \<subseteq>
   set (shearPlates [0, 1 / 5, 2 / 5, 3 / 5] [0, 1 / 5, 2 / 5]
          (plateIdTable [0, 1 / 5, 2 / 5, 3 / 5] [0, 1 / 5, 2 / 5] 0 [] ''down'') (1 / 5) (3 / 10)
          [\<lparr>pt_id = 1, pt_x = 1 / 5, pt_z = 1 / 5, pt_length = 1 / 2, pt_width = 3 / 10\<rparr>])"
proof -
  have m: "(0 :: rat) < 1 / 5" and t: "(0 :: rat) < 3 / 10" by simp_all
  show ?thesis
    using m t moment_subset_oneWay[OF m t] by blast
qed

text \<open>
  Claim C9. With plate thickness and mesh step positive, the two-way-shear plates
  of a pedestal are among its one-way-shear plates, and the 2_WAY_SHEAR group is
  contained in the 1_WAY_SHEAR group: round(t/(2m)) is at most round(t/m).
\<close>

theorem twoWay_subset_oneWay:
  assumes "0 < mesh" and "0 < plateThickness"
  shows "set (twoWayShearPlatesForPedestal xL zL tbl mesh plateThickness pt) \<subseteq>
           set (oneWayShearPlatesForPedestal xL zL tbl mesh plateThickness pt) \<and>
         set (twoWayShearPlates_sorted xL zL tbl mesh plateThickness points) \<subseteq>
           set (shearPlates xL zL tbl mesh plateThickness points)"
proof
  show "set (twoWayShearPlatesForPedestal xL zL tbl mesh plateThickness pt) \<subseteq>
        set (oneWayShearPlatesForPedestal xL zL tbl mesh plateThickness pt)"
    by (simp add: twoWayShearPlatesForPedestal_def oneWayShearPlatesForPedestal_def set_add_range
        cell_ids_mono[OF twoWay_cells_in_oneWay[OF assms]])
  have "\<And>q. cell_ids tbl (range_cells (int (length xL) - 1) (int (length zL) - 1)
                (twoWay_range xL zL mesh plateThickness q)) \<subseteq>
            cell_ids tbl (range_cells (int (length xL) - 1) (int (length zL) - 1)
                (oneWay_range xL zL mesh plateThickness q))"
    by (rule cell_ids_mono[OF twoWay_cells_in_oneWay[OF assms]])
  then show "set (twoWayShearPlates_sorted xL zL tbl mesh plateThickness points) \<subseteq>
        set (shearPlates xL zL tbl mesh plateThickness points)"
    by (simp add: twoWayShearPlates_sorted_def shearPlates_def set_group_loop) blast
qed

theorem twoWay_subset_oneWay_witness:
  "(0 :: rat) < 1 / 5 \<and> (0 :: rat) < 3 / 10 \<and>
   set (twoWayShearPlatesForPedestal [0, 1 / 5, 2 / 5, 3 / 5] [0, 1 / 5, 2 / 5]
          (plateIdTable [0, 1 / 5, 2 / 5, 3 / 5] [0, 1 / 5, 2 / 5] 0 [] ''down'') (1 / 5) (3 / 10)
          \<lparr>pt_id = 1, pt_x = 1 / 5, pt_z = 1 / 5, pt_length = 1 / 2, pt_width = 3 / 10\<rparr>) \<subseteq>
   set (oneWayShearPlatesForPedestal [0, 1 / 5, 2 / 5, 3 / 5] [0, 1 / 5, 2 / 5]
          (plateIdTable [0, 1 / 5, 2 / 5, 3 / 5] [0, 1 / 5, 2 / 5] 0 [] ''down'') (1 / 5) (3 / 10)
          \<lparr>pt_id = 1, pt_x = 1 / 5, pt_z = 1 / 5, pt_length = 1 / 2, pt_width = 3 / 10\<rparr>) \<and>
   set (twoWayShearPlates_sorted [0, 1 / 5, 2 / 5, 3 / 5] [0, 1 / 5, 2 / 5]
          (plateIdTable [0, 1 / 5, 2 / 5, 3 / 5] [0, 1 / 5, 2 / 5] 0 [] ''down'') (1 / 5) (3 / 10)
          [\<lparr>pt_id = 1, pt_x = 1 / 5, pt_z = 1 / 5, pt_length = 1 / 2, pt_width = 3 / 10\<rparr>]) \<subseteq>
   set (shearPlates [0, 1 / 5, 2 / 5, 3 / 5] [0, 1 / 5, 2 / 5]
          (plateIdTable [0, 1 / 5, 2 / 5, 3 / 5] [0, 1 / 5, 2 / 5] 0 [] ''down'') (1 / 5) (3 / 10)
          [\<lparr>pt_id = 1, pt_x = 1 / 5, pt_z = 1 / 5, pt_length = 1 / 2, pt_width = 3 / 10\<rparr>])"
proof -
  have m: "(0 :: rat) < 1 / 5" and t: "(0 :: rat) < 3 / 10" by simp_all
  show ?thesis
    using m t twoWay_subset_oneWay[OF m t] by blast
qed

subsection \<open>References between plates, members, nodes and groups\<close>

lemma refers_to_append: "refers_to ns k i \<Longrightarrow> refers_to (ns @ ms) k i"
  by (auto simp: refers_to_def)

lemma refers_to_last: "refers_to (ns @ [\<lparr>n_id = i, n_x = x, n_y = y, n_z = z, n_type = k\<rparr>]) k i"
  by (simp add: refers_to_def)

lemma nodeIdAt_bounds:
  assumes "0 \<le> xi" "xi < nX" "0 \<le> zi" "zi < nZ"
  shows "1 \<le> nodeIdAt nX xi zi \<and> nodeIdAt nX xi zi \<le> nX * nZ"
proof -
  have "0 \<le> zi * nX" using assms by simp
  moreover have "(zi + 1) * nX \<le> nZ * nX"
    using assms by (intro mult_right_mono) simp_all
  ultimately show ?thesis
    using assms by (simp add: nodeIdAt_def algebra_simps)
qed

text \<open>After the surface loop the nodes are the surface nodes 1, ..., |xLines| * |zLines|.\<close>

lemma surface_nodes_exist:
  assumes "1 \<le> i" and "i \<le> int (length xL) * int (length zL)"
  shows "refers_to (allNodes (surface_loop xL zL synth_init)) surface i"
proof -
  let ?st = "surface_loop xL zL synth_init"
  let ?P = "\<lambda>s :: synth. node_inv s \<and> (\<forall>n\<in>set (allNodes s). n_type n = surface)"
  have "?P ?st"
  proof (rule surface_loop_invariant)
    show "?P synth_init" by (simp add: node_inv_def synth_init_def)
  next
    fix z x s
    assume s: "?P s"
    then have "node_inv (surface_step z x s)" by (simp add: node_inv_surface_step)
    moreover have "\<forall>n\<in>set (allNodes (surface_step z x s)). n_type n = surface"
      using s by (auto simp: surface_step_def Let_def)
    ultimately show "?P (surface_step z x s)" by simp
  qed
  then have ids: "map n_id (allNodes ?st) = [1..int (length (allNodes ?st))]"
    and kind: "\<forall>n\<in>set (allNodes ?st). n_type n = surface"
    by (simp_all add: node_inv_def)
  have "length (allNodes ?st) = length xL * length zL"
    by (simp add: length_surface_loop synth_init_def)
  then have "i \<in> set [1..int (length (allNodes ?st))]" using assms by simp
  then have "i \<in> set (map n_id (allNodes ?st))" by (simp only: ids)
  then show ?thesis using kind by (auto simp: refers_to_def)
qed

lemma surface_nodes_remain:
  assumes "1 \<le> i" and "i \<le> int (length xL) * int (length zL)"
  shows "refers_to (nodes xL zL h points ori) surface i"
proof -
  have "refers_to (allNodes (pedestal_loop h points (surface_loop xL zL synth_init))) surface i"
    by (rule pedestal_loop_invariant[where P = "\<lambda>s. refers_to (allNodes s) surface i"])
       (auto simp: surface_nodes_exist[OF assms] pedestal_step_def Let_def refers_to_append
             split: option.splits)
  then show ?thesis by (simp add: nodes_def mesh_synth_def plate_loop_keeps_nodes)
qed

lemma plate_nodes_in_range:
  "\<forall>p\<in>set (plates xL zL h points ori).
     length (p_nodes p) = 4 \<and>
     (\<forall>i\<in>set (p_nodes p). 1 \<le> i \<and> i \<le> int (length xL) * int (length zL))"
proof -
  let ?nX = "int (length xL)" and ?nZ = "int (length zL)"
  let ?P = "\<lambda>s :: synth. \<forall>p\<in>set (newPlates s). length (p_nodes p) = 4 \<and>
              (\<forall>i\<in>set (p_nodes p). 1 \<le> i \<and> i \<le> ?nX * ?nZ)"
  have "?P (plate_loop ori ?nX ?nZ (pedestal_loop h points (surface_loop xL zL synth_init)))"
  proof (rule plate_loop_invariant)
    show "?P (pedestal_loop h points (surface_loop xL zL synth_init))"
      by (simp add: before_plates)
  next
    fix zi xi s
    assume b: "0 \<le> zi" "zi \<le> ?nZ - 2" "0 \<le> xi" "xi \<le> ?nX - 2" and s: "?P s"
    have "1 \<le> nodeIdAt ?nX xi zi \<and> nodeIdAt ?nX xi zi \<le> ?nX * ?nZ"
      "1 \<le> nodeIdAt ?nX (xi + 1) zi \<and> nodeIdAt ?nX (xi + 1) zi \<le> ?nX * ?nZ"
      "1 \<le> nodeIdAt ?nX (xi + 1) (zi + 1) \<and> nodeIdAt ?nX (xi + 1) (zi + 1) \<le> ?nX * ?nZ"
      "1 \<le> nodeIdAt ?nX xi (zi + 1) \<and> nodeIdAt ?nX xi (zi + 1) \<le> ?nX * ?nZ"
      using b by (intro nodeIdAt_bounds; linarith)+
    with s show "?P (plate_step ori ?nX zi xi s)"
      by (simp add: plate_step_def Let_def)
  qed
  then show ?thesis by (simp add: plates_def mesh_synth_def)
qed

lemma member_nodes_exist:
  "\<forall>m\<in>set (members xL zL h points ori).
     refers_to (nodes xL zL h points ori) surface (startNode m) \<and>
     refers_to (nodes xL zL h points ori) pedestal (endNode m)"
proof -
  let ?P = "\<lambda>s :: synth. (\<forall>e\<in>set (surfaceNodesByCoord s). refers_to (allNodes s) surface (snd e)) \<and>
              (\<forall>m\<in>set (newMembers s). refers_to (allNodes s) surface (startNode m) \<and>
                                       refers_to (allNodes s) pedestal (endNode m))"
  have "?P (pedestal_loop h points (surface_loop xL zL synth_init))"
  proof (rule pedestal_loop_invariant)
    show "?P (surface_loop xL zL synth_init)"
      by (rule surface_loop_invariant)
         (auto simp: synth_init_def surface_step_def Let_def refers_to_append refers_to_last)
  next
    fix pt s
    assume s: "?P s"
    show "?P (pedestal_step h pt s)"
    proof (cases "map_of (surfaceNodesByCoord s) (round3 (pt_x pt), round3 (pt_z pt))")
      case None
      then show ?thesis using s by (simp add: pedestal_step_def)
    next
      case (Some v)
      then have "((round3 (pt_x pt), round3 (pt_z pt)), v) \<in> set (surfaceNodesByCoord s)"
        by (rule map_of_SomeD)
      then have "refers_to (allNodes s) surface v" using s by fastforce
      then show ?thesis
        using s Some by (auto simp: pedestal_step_def Let_def refers_to_append refers_to_last)
    qed
  qed
  then show ?thesis
    by (simp add: members_def nodes_def mesh_synth_def plate_loop_keeps_nodes)
qed

lemma plate_table_values:
  "snd ` set (plateIdTable xL zL h points ori) \<subseteq> p_id ` set (plates xL zL h points ori)"
proof -
  let ?P = "\<lambda>s :: synth. snd ` set (plateIdByCoord s) \<subseteq> p_id ` set (newPlates s)"
  have "?P (plate_loop ori (int (length xL)) (int (length zL))
              (pedestal_loop h points (surface_loop xL zL synth_init)))"
    by (rule plate_loop_invariant) (auto simp: before_plates plate_step_def Let_def)
  then show ?thesis by (simp add: plateIdTable_def plates_def mesh_synth_def)
qed

lemma plate_table_keys:
  "fst ` set (plateIdTable xL zL h points ori) =
     {(xi, zi). 0 \<le> xi \<and> xi \<le> int (length xL) - 2 \<and> 0 \<le> zi \<and> zi \<le> int (length zL) - 2}"
proof -
  let ?nX = "int (length xL)" and ?nZ = "int (length zL)"
  let ?K = "\<lambda>s :: synth. fst ` set (plateIdByCoord s)"
  have inner: "\<And>zi s. ?K (fold (plate_step ori ?nX zi) [0..?nX - 2] s) =
      ?K s \<union> (\<Union>xi\<in>set [0..?nX - 2]. {(xi, zi)})"
    by (rule fold_keys_Un) (simp add: plate_step_def Let_def)
  have "\<And>st. ?K (plate_loop ori ?nX ?nZ st) =
      ?K st \<union> (\<Union>zi\<in>set [0..?nZ - 2]. \<Union>xi\<in>set [0..?nX - 2]. {(xi, zi)})"
    unfolding plate_loop_def by (rule fold_keys_Un[where K = ?K]) (rule inner)
  then show ?thesis
    by (auto simp: plateIdTable_def mesh_synth_def before_plates)
qed

lemma cell_ids_values: "cell_ids tbl cells \<subseteq> snd ` set tbl"
  by (force simp: cell_ids_def dest: map_of_SomeD)

lemma clipped_cells_in_table:
  assumes "c \<in> set (range_cells (int (length xL) - 1) (int (length zL) - 1) r)"
  shows "c \<in> fst ` set (plateIdTable xL zL h points ori)"
proof -
  obtain xi zi where c: "c = (xi, zi)" by (cases c) auto
  obtain sx ex sz ez where r: "r = (sx, ex, sz, ez)" by (cases r) auto
  from assms have "0 \<le> xi \<and> xi \<le> int (length xL) - 2 \<and> 0 \<le> zi \<and> zi \<le> int (length zL) - 2"
    unfolding c r in_range_cells by linarith
  then show ?thesis by (simp add: plate_table_keys c)
qed

text \<open>
  Claim C6. Every plate has four node ids, each the id of a surface node; every
  member starts at a surface node and ends at a pedestal node; the three groups
  hold ids of generated plates only; and every cell that a clipped range visits,
  whatever the range, has an entry in the plate table, so that no lookup of the
  grouping misses.
\<close>

theorem references_valid:
  "(\<forall>p\<in>set (plates xL zL h points ori).
      length (p_nodes p) = 4 \<and>
      (\<forall>i\<in>set (p_nodes p). refers_to (nodes xL zL h points ori) surface i)) \<and>
   (\<forall>m\<in>set (members xL zL h points ori).
      refers_to (nodes xL zL h points ori) surface (startNode m) \<and>
      refers_to (nodes xL zL h points ori) pedestal (endNode m)) \<and>
   set (groupedPlates xL zL (plateIdTable xL zL h points ori) mesh t points)
     \<subseteq> p_id ` set (plates xL zL h points ori) \<and>
   set (shearPlates xL zL (plateIdTable xL zL h points ori) mesh t points)
     \<subseteq> p_id ` set (plates xL zL h points ori) \<and>
   set (twoWayShearPlates_sorted xL zL (plateIdTable xL zL h points ori) mesh t points)
     \<subseteq> p_id ` set (plates xL zL h points ori) \<and>
   (\<forall>c\<in>set (range_cells (int (length xL) - 1) (int (length zL) - 1) r).
      map_of (plateIdTable xL zL h points ori) c \<noteq> None)"
proof (intro conjI)
  show "\<forall>p\<in>set (plates xL zL h points ori).
      length (p_nodes p) = 4 \<and>
      (\<forall>i\<in>set (p_nodes p). refers_to (nodes xL zL h points ori) surface i)"
    using plate_nodes_in_range[of xL zL h points ori] surface_nodes_remain[of _ xL zL h points ori]
    by blast
  show "\<forall>m\<in>set (members xL zL h points ori).
      refers_to (nodes xL zL h points ori) surface (startNode m) \<and>
      refers_to (nodes xL zL h points ori) pedestal (endNode m)"
    by (rule member_nodes_exist)
  let ?tbl = "plateIdTable xL zL h points ori"
  have ids: "\<And>cells. cell_ids ?tbl cells \<subseteq> p_id ` set (plates xL zL h points ori)"
    using cell_ids_values plate_table_values by blast
  show "set (groupedPlates xL zL ?tbl mesh t points) \<subseteq> p_id ` set (plates xL zL h points ori)"
    using ids by (simp add: groupedPlates_def set_group_loop UN_least)
  show "set (shearPlates xL zL ?tbl mesh t points) \<subseteq> p_id ` set (plates xL zL h points ori)"
    using ids by (simp add: shearPlates_def set_group_loop UN_least)
  show "set (twoWayShearPlates_sorted xL zL ?tbl mesh t points) \<subseteq> p_id ` set (plates xL zL h points ori)"
    using ids by (simp add: twoWayShearPlates_sorted_def set_group_loop UN_least)
  show "\<forall>c\<in>set (range_cells (int (length xL) - 1) (int (length zL) - 1) r). map_of ?tbl c \<noteq> None"
    using clipped_cells_in_table[of _ xL zL r h points ori] map_of_eq_None_iff[of ?tbl] by blast
qed
theorem references_valid_witness:
  "\<lparr>p_id = 1, p_nodes = [1, 2, 4, 3]\<rparr> \<in>
     set (plates [0, 1] [0, 1] (1 / 2)
            [\<lparr>pt_id = 1, pt_x = 0, pt_z = 0, pt_length = 1 / 2, pt_width = 3 / 10\<rparr>] ''down'') \<and>
   refers_to (nodes [0, 1] [0, 1] (1 / 2)
            [\<lparr>pt_id = 1, pt_x = 0, pt_z = 0, pt_length = 1 / 2, pt_width = 3 / 10\<rparr>] ''down'')
     surface 4 \<and>
   \<lparr>m_id = 1, startNode = 1, endNode = 5,
      pointData = \<lparr>pt_id = 1, pt_x = 0, pt_z = 0, pt_length = 1 / 2, pt_width = 3 / 10\<rparr>\<rparr> \<in>
     set (members [0, 1] [0, 1] (1 / 2)
            [\<lparr>pt_id = 1, pt_x = 0, pt_z = 0, pt_length = 1 / 2, pt_width = 3 / 10\<rparr>] ''down'') \<and>
   refers_to (nodes [0, 1] [0, 1] (1 / 2)
            [\<lparr>pt_id = 1, pt_x = 0, pt_z = 0, pt_length = 1 / 2, pt_width = 3 / 10\<rparr>] ''down'')
     pedestal 5 \<and>
   (0, 0) \<in> set (range_cells (int (length [0, 1 :: rat]) - 1) (int (length [0, 1 :: rat]) - 1)
                  (- 3, 4, - 3, 4)) \<and>
   map_of (plateIdTable [0, 1] [0, 1] (1 / 2)
            [\<lparr>pt_id = 1, pt_x = 0, pt_z = 0, pt_length = 1 / 2, pt_width = 3 / 10\<rparr>] ''down'')
     (0, 0) \<noteq> None"
proof -
  let ?pts = "[\<lparr>pt_id = 1, pt_x = 0, pt_z = 0, pt_length = 1 / 2, pt_width = 3 / 10\<rparr>]"
  have a: "\<lparr>p_id = 1, p_nodes = [1, 2, 4, 3]\<rparr> \<in> set (plates [0, 1] [0, 1] (1 / 2) ?pts ''down'')"
    by code_simp
  have b: "\<lparr>m_id = 1, startNode = 1, endNode = 5, pointData = hd ?pts\<rparr> \<in>
      set (members [0, 1] [0, 1] (1 / 2) ?pts ''down'')"
    by code_simp
  have c: "(0, 0) \<in> set (range_cells (int (length [0, 1 :: rat]) - 1) (int (length [0, 1 :: rat]) - 1)
                  (- 3, 4, - 3, 4))"
    by code_simp
  note T = references_valid[of "[0, 1]" "[0, 1]" "1 / 2" ?pts "''down''" "1 / 5" "3 / 10" "(- 3, 4, - 3, 4)"]
  from T a have "refers_to (nodes [0, 1] [0, 1] (1 / 2) ?pts ''down'') surface 4" by force
  moreover from T b have "refers_to (nodes [0, 1] [0, 1] (1 / 2) ?pts ''down'') pedestal 5" by force
  moreover from T c have "map_of (plateIdTable [0, 1] [0, 1] (1 / 2) ?pts ''down'') (0, 0) \<noteq> None"
    by blast
  ultimately show ?thesis using a b c by simp
qed

subsection \<open>Pedestals off the grid\<close>

lemma pedestal_step_off_grid:
  assumes "\<not> (\<exists>v. map_of (surfaceNodesByCoord st) (round3 (pt_x pt), round3 (pt_z pt)) = Some v \<and> v \<noteq> 0)"
  shows "pedestal_step h pt st = st"
  using assms by (auto simp: pedestal_step_def split: option.splits)

lemma pedestal_fold_skips:
  assumes "\<not> (\<exists>v. map_of (surfaceNodesByCoord st) (round3 (pt_x pt), round3 (pt_z pt)) = Some v \<and> v \<noteq> 0)"
  shows "fold (pedestal_step h) (before @ pt # after) st = fold (pedestal_step h) (before @ after) st"
proof -
  have "surfaceNodesByCoord (fold (pedestal_step h) before st) = surfaceNodesByCoord st"
    by (rule surface_table_pedestal_fold)
  with assms have "pedestal_step h pt (fold (pedestal_step h) before st) = fold (pedestal_step h) before st"
    by (intro pedestal_step_off_grid) simp
  then show ?thesis by simp
qed

lemma members_on_grid:
  "\<forall>m\<in>set (members xL zL h points ori). on_grid xL zL (pointData m)"
proof -
  let ?st = "surface_loop xL zL synth_init"
  let ?P = "\<lambda>s :: synth. surfaceNodesByCoord s = surfaceNodesByCoord ?st \<and>
              (\<forall>m\<in>set (newMembers s). on_grid xL zL (pointData m))"
  have "?P (pedestal_loop h points ?st)"
  proof (rule pedestal_loop_invariant)
    have "newMembers ?st = []"
      by (rule surface_loop_invariant) (simp_all add: synth_init_def surface_step_def Let_def)
    then show "?P ?st" by simp
  next
    fix pt s
    assume s: "?P s"
    show "?P (pedestal_step h pt s)"
    proof (cases "on_grid xL zL pt")
      case True
      with s show ?thesis by (auto simp: pedestal_step_def Let_def split: option.splits)
    next
      case False
      then have "pedestal_step h pt s = s"
        using s surface_lookup_on_grid[of xL zL pt] by (intro pedestal_step_off_grid) simp
      with s show ?thesis by simp
    qed
  qed
  then show ?thesis by (simp add: members_def mesh_synth_def plate_loop_keeps_nodes)
qed

text \<open>
  Claim C2, amended. A pedestal whose rounded centre is not the rounded position
  of any surface node changes nothing in the mesh computation: nodes, members,
  plates and the plate table are those computed without it, and no member carries
  it. (The functions of the model are total: there is no error to raise. Nothing
  is said here about the plate groups of such a pedestal.)
\<close>

theorem off_grid_pedestal_skipped:
  assumes "\<not> on_grid xL zL pt"
  shows "mesh_synth xL zL h (before @ pt # after) ori = mesh_synth xL zL h (before @ after) ori \<and>
         (\<forall>m\<in>set (members xL zL h points ori). pointData m \<noteq> pt)"
proof
  have "\<not> (\<exists>v. map_of (surfaceNodesByCoord (surface_loop xL zL synth_init))
                 (round3 (pt_x pt), round3 (pt_z pt)) = Some v \<and> v \<noteq> 0)"
    using assms by (simp only: surface_lookup_on_grid) simp
  then have "pedestal_loop h (before @ pt # after) (surface_loop xL zL synth_init) =
      pedestal_loop h (before @ after) (surface_loop xL zL synth_init)"
    unfolding pedestal_loop_def using pedestal_fold_skips[of _ pt h before after] by simp
  then show "mesh_synth xL zL h (before @ pt # after) ori = mesh_synth xL zL h (before @ after) ori"
    by (simp only: mesh_synth_def)
  show "\<forall>m\<in>set (members xL zL h points ori). pointData m \<noteq> pt"
    using assms members_on_grid[of xL zL h points ori] by blast
qed

theorem off_grid_pedestal_skipped_witness:
  "\<not> on_grid [0, 1 / 5, 2 / 5, 3 / 5, 4 / 5, 1] [0, 1 / 5, 2 / 5, 3 / 5, 4 / 5, 1]
       \<lparr>pt_id = 1, pt_x = 2, pt_z = 2 / 5, pt_length = 1 / 2, pt_width = 3 / 10\<rparr> \<and>
   mesh_synth [0, 1 / 5, 2 / 5, 3 / 5, 4 / 5, 1] [0, 1 / 5, 2 / 5, 3 / 5, 4 / 5, 1] (1 / 2)
     ([] @ \<lparr>pt_id = 1, pt_x = 2, pt_z = 2 / 5, pt_length = 1 / 2, pt_width = 3 / 10\<rparr> # []) ''down'' =
   mesh_synth [0, 1 / 5, 2 / 5, 3 / 5, 4 / 5, 1] [0, 1 / 5, 2 / 5, 3 / 5, 4 / 5, 1] (1 / 2)
     ([] @ []) ''down''"
proof -
  have off: "\<not> on_grid [0, 1 / 5, 2 / 5, 3 / 5, 4 / 5, 1] [0, 1 / 5, 2 / 5, 3 / 5, 4 / 5, 1]
       \<lparr>pt_id = 1, pt_x = 2, pt_z = 2 / 5, pt_length = 1 / 2, pt_width = 3 / 10\<rparr>"
    by code_simp
  show ?thesis
    using off off_grid_pedestal_skipped[OF off, of "1 / 2" "[]" "[]" "''down''" "[]"] by blast
qed

text \<open>
  Plan 1 by 1, mesh 0.25, height 0.5, thickness 0.5, one pedestal of 0.5 by 0.25
  at x = 2, z = 0.5 (added with coordinates beyond the plan): its cut is clamped
  to x = 1, its rounded centre is no grid intersection and it gets no member, but
  the grouping takes the nearest grid index and gives it two moment plates,
  twelve one-way and eight two-way shear plates. (All quotients of this input are
  exact in binary floating point, so the source computes the same index ranges.)
\<close>

theorem off_grid_groups_counterexample:
  "xLines 1 (1 / 4) [\<lparr>pt_id = 1, pt_x = 2, pt_z = 1 / 2, pt_length = 1 / 2, pt_width = 1 / 4\<rparr>] = Some [0, 1 / 4, 1 / 2, 3 / 4, 1] \<and>
   zLines 1 (1 / 4) [\<lparr>pt_id = 1, pt_x = 2, pt_z = 1 / 2, pt_length = 1 / 2, pt_width = 1 / 4\<rparr>] = Some [0, 1 / 4, 1 / 2, 3 / 4, 1] \<and>
   \<not> on_grid [0, 1 / 4, 1 / 2, 3 / 4, 1] [0, 1 / 4, 1 / 2, 3 / 4, 1] \<lparr>pt_id = 1, pt_x = 2, pt_z = 1 / 2, pt_length = 1 / 2, pt_width = 1 / 4\<rparr> \<and>
   members [0, 1 / 4, 1 / 2, 3 / 4, 1] [0, 1 / 4, 1 / 2, 3 / 4, 1] (1 / 2) [\<lparr>pt_id = 1, pt_x = 2, pt_z = 1 / 2, pt_length = 1 / 2, pt_width = 1 / 4\<rparr>] ''down'' = [] \<and>
   momentPlatesForPedestal [0, 1 / 4, 1 / 2, 3 / 4, 1] [0, 1 / 4, 1 / 2, 3 / 4, 1]
     (plateIdTable [0, 1 / 4, 1 / 2, 3 / 4, 1] [0, 1 / 4, 1 / 2, 3 / 4, 1] (1 / 2) [\<lparr>pt_id = 1, pt_x = 2, pt_z = 1 / 2, pt_length = 1 / 2, pt_width = 1 / 4\<rparr>] ''down'')
     (1 / 4) \<lparr>pt_id = 1, pt_x = 2, pt_z = 1 / 2, pt_length = 1 / 2, pt_width = 1 / 4\<rparr>
     = [8, 12] \<and>
   oneWayShearPlatesForPedestal [0, 1 / 4, 1 / 2, 3 / 4, 1] [0, 1 / 4, 1 / 2, 3 / 4, 1]
     (plateIdTable [0, 1 / 4, 1 / 2, 3 / 4, 1] [0, 1 / 4, 1 / 2, 3 / 4, 1] (1 / 2) [\<lparr>pt_id = 1, pt_x = 2, pt_z = 1 / 2, pt_length = 1 / 2, pt_width = 1 / 4\<rparr>] ''down'')
     (1 / 4) (1 / 2) \<lparr>pt_id = 1, pt_x = 2, pt_z = 1 / 2, pt_length = 1 / 2, pt_width = 1 / 4\<rparr>
     = [2, 6, 10, 14, 3, 7, 11, 15, 4, 8, 12, 16] \<and>
   twoWayShearPlatesForPedestal [0, 1 / 4, 1 / 2, 3 / 4, 1] [0, 1 / 4, 1 / 2, 3 / 4, 1]
     (plateIdTable [0, 1 / 4, 1 / 2, 3 / 4, 1] [0, 1 / 4, 1 / 2, 3 / 4, 1] (1 / 2) [\<lparr>pt_id = 1, pt_x = 2, pt_z = 1 / 2, pt_length = 1 / 2, pt_width = 1 / 4\<rparr>] ''down'')
     (1 / 4) (1 / 2) \<lparr>pt_id = 1, pt_x = 2, pt_z = 1 / 2, pt_length = 1 / 2, pt_width = 1 / 4\<rparr>
     = [3, 7, 11, 15, 4, 8, 12, 16]"
  by code_simp

subsection \<open>Grid lines\<close>

lemma set_uniqSorted: "set (uniqSorted arr eps) = round_eps eps ` set arr"
  by (auto simp: uniqSorted_def round_eps_def)

lemma sorted_uniqSorted: "sorted (uniqSorted arr eps)"
  by (simp add: uniqSorted_def)

lemma distinct_uniqSorted: "distinct (uniqSorted arr eps)"
  by (simp add: uniqSorted_def)

lemma Math_round_of_int [simp]: "Math_round (of_int k) = k"
proof -
  have "\<lfloor>(1 :: rat) / 2\<rfloor> = 0" by (simp add: floor_eq_iff)
  then show ?thesis by (simp add: Math_round_def)
qed

lemma round_eps_0 [simp]: "round_eps eps 0 = 0"
  using Math_round_of_int[of 0] by (simp add: round_eps_def)

lemma round_eps_multiple: "eps \<noteq> 0 \<Longrightarrow> round_eps eps (of_int k * eps) = of_int k * eps"
  by (simp add: round_eps_def)

text \<open>The inner loop adds only points a + j * step inside the interval, and drops nothing.\<close>

lemma division_step_superset: "set lines \<subseteq> set (division_step a b step j lines)"
  by (auto simp: division_step_def Let_def)

lemma division_fold_superset: "set lines \<subseteq> set (fold (division_step a b step) js lines)"
proof (induction js arbitrary: lines)
  case Nil
  then show ?case by simp
next
  case (Cons j js)
  show ?case
    using division_step_superset[of lines a b step j] Cons.IH[of "division_step a b step j lines"]
    by simp
qed

lemma division_fold_distinct:
  "distinct lines \<Longrightarrow> distinct (fold (division_step a b step) js lines)"
  by (induction js arbitrary: lines) (auto simp: division_step_def Let_def)

lemma division_fold_origin:
  assumes "t \<in> set (fold (division_step a b step) js lines)"
  shows "t \<in> set lines \<or>
         (\<exists>j\<in>set js. t = a + of_int j * step \<and> a + 1 / 1000000000 < t \<and> t < b - 1 / 1000000000)"
  using assms
proof (induction js arbitrary: lines)
  case Nil
  then show ?case by simp
next
  case (Cons j js)
  from Cons.IH[OF Cons.prems[simplified]] show ?case
    by (auto simp: division_step_def Let_def split: if_splits)
qed

lemma addDivisions_loop_total:
  "step \<noteq> 0 \<Longrightarrow> \<exists>r. addDivisions_loop step cuts lines = Some r"
  by (induction step cuts lines rule: addDivisions_loop.induct) (auto simp: Let_def)

lemma addDivisions_loop_superset:
  "addDivisions_loop step cuts lines = Some r \<Longrightarrow> set lines \<subseteq> set r"
proof (induction step cuts lines rule: addDivisions_loop.induct)
  case (1 step a b cuts lines)
  show ?case
  proof (cases "b - a \<le> 0")
    case True
    with 1 show ?thesis by (simp add: Let_def)
  next
    case False
    with "1.prems" have nz: "step \<noteq> 0" by (auto simp: Let_def split: if_splits)
    let ?l = "fold (division_step a b step) [1..\<lfloor>(b - a) / step\<rfloor>] lines"
    have "addDivisions_loop step (b # cuts) ?l = Some r"
      using "1.prems" False nz by (simp add: Let_def)
    then have "set ?l \<subseteq> set r" using "1.IH"(2) False nz by simp
    then show ?thesis using division_fold_superset[of lines a b step] by blast
  qed
qed simp_all

lemma addDivisions_loop_distinct:
  "addDivisions_loop step cuts lines = Some r \<Longrightarrow> distinct lines \<Longrightarrow> distinct r"
proof (induction step cuts lines rule: addDivisions_loop.induct)
  case (1 step a b cuts lines)
  show ?case
  proof (cases "b - a \<le> 0")
    case True
    with 1 show ?thesis by (simp add: Let_def)
  next
    case False
    with "1.prems" have nz: "step \<noteq> 0" by (auto simp: Let_def split: if_splits)
    let ?l = "fold (division_step a b step) [1..\<lfloor>(b - a) / step\<rfloor>] lines"
    have "addDivisions_loop step (b # cuts) ?l = Some r"
      using "1.prems" False nz by (simp add: Let_def)
    then show ?thesis
      using "1.IH"(2) False nz division_fold_distinct[OF "1.prems"(2)] by simp
  qed
qed simp_all

lemma interior_point_Cons: "interior_point step (b # cuts) t \<Longrightarrow> interior_point step (a # b # cuts) t"
  by (auto simp: interior_point_def)

lemma addDivisions_loop_origin:
  "addDivisions_loop step cuts lines = Some r \<Longrightarrow> t \<in> set r \<Longrightarrow>
     t \<in> set lines \<or> interior_point step cuts t"
proof (induction step cuts lines rule: addDivisions_loop.induct)
  case (1 step a b cuts lines)
  show ?case
  proof (cases "b - a \<le> 0")
    case True
    with 1 have "t \<in> set lines \<or> interior_point step (b # cuts) t" by (simp add: Let_def)
    then show ?thesis using interior_point_Cons by blast
  next
    case False
    with "1.prems" have nz: "step \<noteq> 0" by (auto simp: Let_def split: if_splits)
    let ?js = "[1..\<lfloor>(b - a) / step\<rfloor>]"
    let ?l = "fold (division_step a b step) ?js lines"
    have "addDivisions_loop step (b # cuts) ?l = Some r"
      using "1.prems" False nz by (simp add: Let_def)
    then have "t \<in> set ?l \<or> interior_point step (b # cuts) t"
      using "1.IH"(2) "1.prems"(2) False nz by simp
    then consider "t \<in> set lines"
      | j where "j \<in> set ?js" "t = a + of_int j * step" "a + 1 / 1000000000 < t" "t < b - 1 / 1000000000"
      | "interior_point step (b # cuts) t"
      using division_fold_origin[of t a b step ?js lines] by blast
    then show ?thesis
    proof cases
      case 1
      then show ?thesis by simp
    next
      case 2
      then have "1 \<le> j" by simp
      with 2 have "interior_point step (a # b # cuts) t"
        unfolding interior_point_def by (intro bexI[of _ "(a, b)"]) auto
      then show ?thesis by simp
    next
      case 3
      then show ?thesis using interior_point_Cons by blast
    qed
  qed
qed simp_all
lemma adjacent_no_between:
  assumes "sorted cuts" and "(a, b) \<in> set (zip cuts (tl cuts))" and "c \<in> set cuts"
  shows "c \<le> a \<or> b \<le> c"
  using assms
proof (induction cuts)
  case Nil
  then show ?case by simp
next
  case (Cons x xs)
  show ?case
  proof (cases xs)
    case Nil
    with Cons.prems show ?thesis by simp
  next
    case (Cons y ys)
    with Cons.prems(2) consider "(a, b) = (x, y)" | "(a, b) \<in> set (zip xs (tl xs))" by auto
    then show ?thesis
    proof cases
      case 1
      with Cons.prems(1,3) Cons show ?thesis by auto
    next
      case 2
      then have "a \<in> set xs" by (auto dest: set_zip_leftD)
      then have xa: "x \<le> a" using Cons.prems(1) by auto
      show ?thesis
      proof (cases "c = x")
        case True
        with xa show ?thesis by simp
      next
        case False
        with Cons.prems(3) have "c \<in> set xs" by simp
        with Cons.IH 2 Cons.prems(1) show ?thesis by simp
      qed
    qed
  qed
qed

lemma interior_pointE:
  assumes "interior_point step cuts t"
  obtains a b j where "(a, b) \<in> set (zip cuts (tl cuts))" and "1 \<le> j"
    and "t = a + of_int j * step" and "a + 1 / 1000000000 < t" and "t < b - 1 / 1000000000"
proof -
  from assms obtain ab j where "ab \<in> set (zip cuts (tl cuts))" and "1 \<le> (j :: int)"
    and "t = fst ab + of_int j * step" and "fst ab + 1 / 1000000000 < t"
    and "t < snd ab - 1 / 1000000000"
    unfolding interior_point_def case_prod_beta by blast
  then show thesis using that[of "fst ab" "snd ab" j] by simp
qed

lemma multiples_apart:
  fixes k k' :: int and s :: rat
  assumes "0 < s" and "of_int k * s \<noteq> of_int k' * s"
  shows "s \<le> \<bar>of_int k * s - of_int k' * s\<bar>"
proof -
  have "k \<noteq> k'" using assms(2) by auto
  then have "1 \<le> \<bar>k - k'\<bar>" by simp
  then have "(1 :: rat) \<le> \<bar>of_int (k - k')\<bar>" by (simp only: of_int_abs[symmetric] of_int_1_le_iff)
  then have "1 * s \<le> \<bar>of_int (k - k')\<bar> * s" using assms(1) by (intro mult_right_mono) simp_all
  also have "\<bar>of_int (k - k')\<bar> * s = \<bar>of_int k * s - of_int k' * s\<bar>"
    using assms(1) by (simp add: abs_mult left_diff_distrib[symmetric])
  finally show ?thesis by simp
qed

text \<open>
  Two different values among the cuts and the division points are at least
  min(step, 1e-9) apart, when the cuts are sorted multiples of 1e-6.
\<close>

lemma grid_points_apart:
  assumes step: "0 < step" and srt: "sorted cuts"
    and grid: "\<forall>c\<in>set cuts. \<exists>k. c = of_int k * eps_default"
    and u: "u \<in> set cuts \<or> interior_point step cuts u"
    and v: "v \<in> set cuts \<or> interior_point step cuts v"
    and ne: "u \<noteq> v"
  shows "min step (1 / 1000000000) \<le> \<bar>u - v\<bar>"
proof -
  have cut_cut: "min step (1 / 1000000000) \<le> \<bar>x - y\<bar>"
    if "x \<in> set cuts" "y \<in> set cuts" "x \<noteq> y" for x y
  proof -
    from that grid obtain k k' where kx: "x = of_int k * eps_default" and ky: "y = of_int k' * eps_default"
      by blast
    have pos: "0 < eps_default" by (simp add: eps_default_def)
    have "of_int k * eps_default \<noteq> of_int k' * eps_default" using that(3) kx ky by blast
    then have "eps_default \<le> \<bar>of_int k * eps_default - of_int k' * eps_default\<bar>"
      by (rule multiples_apart[OF pos])
    then have "eps_default \<le> \<bar>x - y\<bar>" by (simp only: kx ky)
    moreover have "min step (1 / 1000000000) \<le> eps_default"
      by (simp add: eps_default_def min_le_iff_disj)
    ultimately show ?thesis by linarith
  qed
  have int_cut: "min step (1 / 1000000000) \<le> \<bar>x - y\<bar>"
    if "interior_point step cuts x" "y \<in> set cuts" for x y
  proof -
    from that(1) obtain a b j where ab: "(a, b) \<in> set (zip cuts (tl cuts))"
      and x: "a + 1 / 1000000000 < x" "x < b - 1 / 1000000000"
      by (rule interior_pointE)
    from adjacent_no_between[OF srt ab that(2)] x show ?thesis by (auto simp: min_def)
  qed
  have int_int: "min step (1 / 1000000000) \<le> \<bar>x - y\<bar>"
    if "interior_point step cuts x" "interior_point step cuts y" "x \<noteq> y" for x y
  proof -
    from that(1) obtain a b j where ab: "(a, b) \<in> set (zip cuts (tl cuts))"
      and x: "x = a + of_int j * step" "a + 1 / 1000000000 < x" "x < b - 1 / 1000000000"
      by (rule interior_pointE)
    from that(2) obtain a' b' j' where ab': "(a', b') \<in> set (zip cuts (tl cuts))"
      and y: "y = a' + of_int j' * step" "a' + 1 / 1000000000 < y" "y < b' - 1 / 1000000000"
      by (rule interior_pointE)
    have mem: "a \<in> set cuts" "a' \<in> set cuts"
      using ab ab' by (auto dest: set_zip_leftD)
    have 1: "a' \<le> a \<or> b \<le> a'" by (rule adjacent_no_between[OF srt ab mem(2)])
    have 2: "a \<le> a' \<or> b' \<le> a" by (rule adjacent_no_between[OF srt ab' mem(1)])
    consider "b \<le> a'" | "b' \<le> a" | "a = a'" using 1 2 by linarith
    then show ?thesis
    proof cases
      case 1
      with x y show ?thesis by (auto simp: min_def)
    next
      case 2
      with x y show ?thesis by (auto simp: min_def)
    next
      case 3
      have "step \<le> \<bar>of_int j * step - of_int j' * step\<bar>"
        using that(3) x(1) y(1) 3 by (intro multiples_apart[OF step]) auto
      then show ?thesis using x(1) y(1) 3 by (simp add: min_def)
    qed
  qed
  from u v show ?thesis
  proof (elim disjE)
    assume "u \<in> set cuts" "v \<in> set cuts"
    then show ?thesis using cut_cut ne by blast
  next
    assume "u \<in> set cuts" "interior_point step cuts v"
    then have "min step (1 / 1000000000) \<le> \<bar>v - u\<bar>" using int_cut by blast
    then show ?thesis by (simp add: abs_minus_commute)
  next
    assume "interior_point step cuts u" "v \<in> set cuts"
    then show ?thesis using int_cut by blast
  next
    assume "interior_point step cuts u" "interior_point step cuts v"
    then show ?thesis using int_int ne by blast
  qed
qed

lemma addDivisions_properties:
  assumes step: "0 < step" and srt: "sorted cuts" and dst: "distinct cuts"
    and grid: "\<forall>c\<in>set cuts. \<exists>k. c = of_int k * eps_default"
  shows "\<exists>r. addDivisions cuts mx step = Some r \<and> set cuts \<subseteq> set r \<and> sorted_wrt (<) r \<and>
           (\<forall>u\<in>set r. \<forall>v\<in>set r. u \<noteq> v \<longrightarrow> min step (1 / 1000000000) \<le> \<bar>u - v\<bar>)"
proof -
  from step obtain r0 where r0: "addDivisions_loop step cuts (new_Set cuts) = Some r0"
    using addDivisions_loop_total[of step cuts "new_Set cuts"] by auto
  have res: "addDivisions cuts mx step = Some (sort r0)" by (simp add: addDivisions_def r0)
  have sup: "set cuts \<subseteq> set (sort r0)"
    using addDivisions_loop_superset[OF r0] by simp
  have "distinct r0" by (rule addDivisions_loop_distinct[OF r0]) simp
  then have strict: "sorted_wrt (<) (sort r0)" by (simp add: strict_sorted_iff)
  have origin: "t \<in> set cuts \<or> interior_point step cuts t" if "t \<in> set (sort r0)" for t
    using addDivisions_loop_origin[OF r0, of t] that by simp
  have "\<forall>u\<in>set (sort r0). \<forall>v\<in>set (sort r0). u \<noteq> v \<longrightarrow> min step (1 / 1000000000) \<le> \<bar>u - v\<bar>"
    using grid_points_apart[OF step srt grid] origin by blast
  with res sup strict show ?thesis by blast
qed

lemma uniqSorted_on_grid: "\<forall>c\<in>set (uniqSorted arr eps_default). \<exists>k. c = of_int k * eps_default"
  by (auto simp: set_uniqSorted round_eps_def)

lemma grid_lines_nonempty:
  "xLines len mesh points = Some xs \<Longrightarrow> xs \<noteq> []"
  "zLines width mesh points = Some zs \<Longrightarrow> zs \<noteq> []"
proof -
  have ne: "r \<noteq> []" if a: "addDivisions cuts mx step = Some r" and c: "0 \<in> set cuts"
    for cuts mx step r
  proof -
    from a obtain r0 where r0: "addDivisions_loop step cuts (new_Set cuts) = Some r0"
      and r: "r = sort r0"
      by (auto simp: addDivisions_def)
    have "0 \<in> set r0" using addDivisions_loop_superset[OF r0] c by auto
    then have "0 \<in> set r" by (simp add: r)
    then show ?thesis by auto
  qed
  have "0 \<in> set (xCuts len points)" "0 \<in> set (zCuts width points)"
    by (simp_all add: xCuts_def zCuts_def set_uniqSorted)
  then show "xLines len mesh points = Some xs \<Longrightarrow> xs \<noteq> []"
    "zLines width mesh points = Some zs \<Longrightarrow> zs \<noteq> []"
    using ne by (auto simp: xLines_def zLines_def)
qed

text \<open>
  Claim C3, amended. For a positive mesh step both grid computations return;
  each sequence contains 0 and, rounded to the nearest multiple of 1e-6, the plan
  extent and every clamped pedestal coordinate of its axis; it is strictly
  increasing, and two different values of it are at least min(mesh, 1e-9) apart.
\<close>

theorem grid_coverage:
  assumes "0 < mesh"
  shows "\<exists>xs zs. xLines len mesh points = Some xs \<and> zLines width mesh points = Some zs \<and>
     0 \<in> set xs \<and> round_eps eps_default len \<in> set xs \<and>
     (\<forall>p\<in>set points. round_eps eps_default (clamp (pt_x p) 0 len) \<in> set xs) \<and>
     sorted_wrt (<) xs \<and>
     (\<forall>u\<in>set xs. \<forall>v\<in>set xs. u \<noteq> v \<longrightarrow> min mesh (1 / 1000000000) \<le> \<bar>u - v\<bar>) \<and>
     0 \<in> set zs \<and> round_eps eps_default width \<in> set zs \<and>
     (\<forall>p\<in>set points. round_eps eps_default (clamp (pt_z p) 0 width) \<in> set zs) \<and>
     sorted_wrt (<) zs \<and>
     (\<forall>u\<in>set zs. \<forall>v\<in>set zs. u \<noteq> v \<longrightarrow> min mesh (1 / 1000000000) \<le> \<bar>u - v\<bar>)"
proof -
  obtain xs where xs: "xLines len mesh points = Some xs" "set (xCuts len points) \<subseteq> set xs"
    "sorted_wrt (<) xs"
    "\<forall>u\<in>set xs. \<forall>v\<in>set xs. u \<noteq> v \<longrightarrow> min mesh (1 / 1000000000) \<le> \<bar>u - v\<bar>"
    using addDivisions_properties[OF assms, of "xCuts len points" len]
    unfolding xLines_def xCuts_def
    by (auto simp: sorted_uniqSorted distinct_uniqSorted uniqSorted_on_grid)
  obtain zs where zs: "zLines width mesh points = Some zs" "set (zCuts width points) \<subseteq> set zs"
    "sorted_wrt (<) zs"
    "\<forall>u\<in>set zs. \<forall>v\<in>set zs. u \<noteq> v \<longrightarrow> min mesh (1 / 1000000000) \<le> \<bar>u - v\<bar>"
    using addDivisions_properties[OF assms, of "zCuts width points" width]
    unfolding zLines_def zCuts_def
    by (auto simp: sorted_uniqSorted distinct_uniqSorted uniqSorted_on_grid)
  have x0: "0 \<in> set xs" "round_eps eps_default len \<in> set xs"
    "\<forall>p\<in>set points. round_eps eps_default (clamp (pt_x p) 0 len) \<in> set xs"
    using xs(2) by (auto simp: xCuts_def set_uniqSorted)
  have z0: "0 \<in> set zs" "round_eps eps_default width \<in> set zs"
    "\<forall>p\<in>set points. round_eps eps_default (clamp (pt_z p) 0 width) \<in> set zs"
    using zs(2) by (auto simp: zCuts_def set_uniqSorted)
  show ?thesis
    using xs(1,3,4) zs(1,3,4) x0 z0 by blast
qed
theorem grid_coverage_witness:
  "(0 :: rat) < 1 / 5 \<and>
   (\<exists>xs zs.
      xLines 6 (1 / 5) [\<lparr>pt_id = 1, pt_x = 61 / 20, pt_z = 2, pt_length = 1 / 2, pt_width = 3 / 10\<rparr>]
        = Some xs \<and>
      zLines 4 (1 / 5) [\<lparr>pt_id = 1, pt_x = 61 / 20, pt_z = 2, pt_length = 1 / 2, pt_width = 3 / 10\<rparr>]
        = Some zs \<and>
      0 \<in> set xs \<and> round_eps eps_default 6 \<in> set xs \<and>
      round_eps eps_default (clamp (61 / 20) 0 6) \<in> set xs \<and> sorted_wrt (<) xs \<and>
      0 \<in> set zs \<and> round_eps eps_default 4 \<in> set zs \<and>
      round_eps eps_default (clamp 2 0 4) \<in> set zs \<and> sorted_wrt (<) zs)"
proof -
  have m: "(0 :: rat) < 1 / 5" by simp
  obtain xs zs where
    "xLines 6 (1 / 5) [\<lparr>pt_id = 1, pt_x = 61 / 20, pt_z = 2, pt_length = 1 / 2, pt_width = 3 / 10\<rparr>]
       = Some xs"
    "zLines 4 (1 / 5) [\<lparr>pt_id = 1, pt_x = 61 / 20, pt_z = 2, pt_length = 1 / 2, pt_width = 3 / 10\<rparr>]
       = Some zs"
    "0 \<in> set xs" "round_eps eps_default 6 \<in> set xs"
    "\<forall>p\<in>set [\<lparr>pt_id = 1, pt_x = 61 / 20, pt_z = 2, pt_length = 1 / 2, pt_width = 3 / 10\<rparr>].
       round_eps eps_default (clamp (pt_x p) 0 6) \<in> set xs"
    "sorted_wrt (<) xs"
    "0 \<in> set zs" "round_eps eps_default 4 \<in> set zs"
    "\<forall>p\<in>set [\<lparr>pt_id = 1, pt_x = 61 / 20, pt_z = 2, pt_length = 1 / 2, pt_width = 3 / 10\<rparr>].
       round_eps eps_default (clamp (pt_z p) 0 4) \<in> set zs"
    "sorted_wrt (<) zs"
    using grid_coverage[OF m, of 6
        "[\<lparr>pt_id = 1, pt_x = 61 / 20, pt_z = 2, pt_length = 1 / 2, pt_width = 3 / 10\<rparr>]" 4]
    by blast
  then show ?thesis using m by auto
qed

text \<open>
  Plan length 1.0000004 and mesh step 0.3333333, no pedestals: the x lines are
  0, 0.3333333, 0.6666666, 0.9999999 and 1. The plan length itself is not among
  them (it was rounded to 1), and the last two lines are only 1e-7 apart.
\<close>

theorem grid_coverage_counterexample:
  "xLines (10000004 / 10000000) (3333333 / 10000000) [] =
     Some [0, 3333333 / 10000000, 6666666 / 10000000, 9999999 / 10000000, 1] \<and>
   (10000004 / 10000000 :: rat) \<notin>
     set [0, 3333333 / 10000000, 6666666 / 10000000, 9999999 / 10000000, 1] \<and>
   \<bar>(1 :: rat) - 9999999 / 10000000\<bar> < 1 / 1000000"
  by code_simp

subsection \<open>Lines of the export\<close>

lemma pack_lines_end:
  assumes "l \<in> set (pack_lines entries)"
  shows "l \<noteq> [] \<and> last l = CHR '';''"
proof -
  let ?P = "\<lambda>st :: string list \<times> string. \<forall>l\<in>set (fst st). l \<noteq> [] \<and> last l = CHR '';''"
  have "?P (fold pack_step entries ([], []))"
    by (rule fold_invariant[where P = ?P]) (auto simp: pack_step_def split: prod.splits)
  moreover obtain ls cur where "fold pack_step entries ([], []) = (ls, cur)"
    by (cases "fold pack_step entries ([], [])") auto
  ultimately show ?thesis
    using assms by (auto simp: pack_lines_def split: if_splits)
qed

lemma pack_lines_bound:
  assumes "\<forall>e\<in>set entries. length e \<le> 74"
  shows "\<forall>l\<in>set (pack_lines entries). length l \<le> 75"
proof -
  let ?P = "\<lambda>st :: string list \<times> string. (\<forall>l\<in>set (fst st). length l \<le> 75) \<and> length (snd st) \<le> 74"
  have "?P (fold pack_step entries ([], []))"
    by (rule fold_invariant[where P = ?P]) (use assms in \<open>auto simp: pack_step_def split: prod.splits\<close>)
  moreover obtain ls cur where "fold pack_step entries ([], []) = (ls, cur)"
    by (cases "fold pack_step entries ([], [])") auto
  ultimately show ?thesis
    by (auto simp: pack_lines_def split: if_splits)
qed

lemma formatGroupLines_bound:
  assumes "\<forall>i\<in>set ids. length (String_int i) \<le> 60" and "length (''_'' @ toUpperCase groupName) \<le> 60"
  shows "\<forall>l\<in>set (formatGroupLines groupName ids). length l \<le> 62"
proof -
  let ?P = "\<lambda>st :: string list \<times> string. (\<forall>l\<in>set (fst st). length l \<le> 62) \<and> length (snd st) \<le> 60"
  have "?P (fold group_line_step ids ([], ''_'' @ toUpperCase groupName))"
    by (rule fold_invariant[where P = ?P])
       (use assms in \<open>auto simp: group_line_step_def Let_def split: prod.splits\<close>)
  moreover obtain ls cur where "fold group_line_step ids ([], ''_'' @ toUpperCase groupName) = (ls, cur)"
    by (cases "fold group_line_step ids ([], ''_'' @ toUpperCase groupName)") auto
  ultimately show ?thesis
    by (auto simp: formatGroupLines_def split: if_splits)
qed

text \<open>
  Claim C1: the code does not keep the limits of the claim. Plan 6 by 1, mesh 0.5,
  pedestal height 0, thickness 0.3, one pedestal of length 6 and width 1 centred
  at (3, 0.5): the second line of the joint block has 75 characters with its
  ';', and the first line of the 1_WAY_SHEAR group has 62 characters with its
  ' -'. (The loops compare the line without the terminator with the limit, and
  append the terminator afterwards.)
\<close>

theorem line_limits_exceeded:
  "xLines 6 (1 / 2) [\<lparr>pt_id = 1, pt_x = 3, pt_z = 1 / 2, pt_length = 6, pt_width = 1\<rparr>] =
     Some [0, 1 / 2, 1, 3 / 2, 2, 5 / 2, 3, 7 / 2, 4, 9 / 2, 5, 11 / 2, 6] \<and>
   zLines 1 (1 / 2) [\<lparr>pt_id = 1, pt_x = 3, pt_z = 1 / 2, pt_length = 6, pt_width = 1\<rparr>] =
     Some [0, 1 / 2, 1] \<and>
   joint_lines (nodes [0, 1 / 2, 1, 3 / 2, 2, 5 / 2, 3, 7 / 2, 4, 9 / 2, 5, 11 / 2, 6] [0, 1 / 2, 1] 0
     [\<lparr>pt_id = 1, pt_x = 3, pt_z = 1 / 2, pt_length = 6, pt_width = 1\<rparr>] ''down'') ! 1 =
     ''8 3.5 0 0; 9 4 0 0; 10 4.5 0 0; 11 5 0 0; 12 5.5 0 0; 13 6 0 0; 14 0 0 0.5;'' \<and>
   length ''8 3.5 0 0; 9 4 0 0; 10 4.5 0 0; 11 5 0 0; 12 5.5 0 0; 13 6 0 0; 14 0 0 0.5;'' = 75 \<and>
   formatGroupLines ''1_WAY_SHEAR''
     (shearPlates [0, 1 / 2, 1, 3 / 2, 2, 5 / 2, 3, 7 / 2, 4, 9 / 2, 5, 11 / 2, 6] [0, 1 / 2, 1]
        (plateIdTable [0, 1 / 2, 1, 3 / 2, 2, 5 / 2, 3, 7 / 2, 4, 9 / 2, 5, 11 / 2, 6] [0, 1 / 2, 1] 0
           [\<lparr>pt_id = 1, pt_x = 3, pt_z = 1 / 2, pt_length = 6, pt_width = 1\<rparr>] ''down'')
        (1 / 2) (3 / 10) [\<lparr>pt_id = 1, pt_x = 3, pt_z = 1 / 2, pt_length = 6, pt_width = 1\<rparr>]) ! 0 =
     ''_1_WAY_SHEAR 1 2 3 4 5 6 7 8 9 10 11 12 13 14 15 16 17 18 19 -'' \<and>
   length ''_1_WAY_SHEAR 1 2 3 4 5 6 7 8 9 10 11 12 13 14 15 16 17 18 19 -'' = 62"
proof -
  have g: "xLines 6 (1 / 2) [\<lparr>pt_id = 1, pt_x = 3, pt_z = 1 / 2, pt_length = 6, pt_width = 1\<rparr>] =
     Some [0, 1 / 2, 1, 3 / 2, 2, 5 / 2, 3, 7 / 2, 4, 9 / 2, 5, 11 / 2, 6] \<and>
   zLines 1 (1 / 2) [\<lparr>pt_id = 1, pt_x = 3, pt_z = 1 / 2, pt_length = 6, pt_width = 1\<rparr>] =
     Some [0, 1 / 2, 1]"
    by code_simp
  have j: "joint_lines (nodes [0, 1 / 2, 1, 3 / 2, 2, 5 / 2, 3, 7 / 2, 4, 9 / 2, 5, 11 / 2, 6] [0, 1 / 2, 1] 0
     [\<lparr>pt_id = 1, pt_x = 3, pt_z = 1 / 2, pt_length = 6, pt_width = 1\<rparr>] ''down'') ! 1 =
     ''8 3.5 0 0; 9 4 0 0; 10 4.5 0 0; 11 5 0 0; 12 5.5 0 0; 13 6 0 0; 14 0 0 0.5;''"
    by code_simp
  have s: "formatGroupLines ''1_WAY_SHEAR''
     (shearPlates [0, 1 / 2, 1, 3 / 2, 2, 5 / 2, 3, 7 / 2, 4, 9 / 2, 5, 11 / 2, 6] [0, 1 / 2, 1]
        (plateIdTable [0, 1 / 2, 1, 3 / 2, 2, 5 / 2, 3, 7 / 2, 4, 9 / 2, 5, 11 / 2, 6] [0, 1 / 2, 1] 0
           [\<lparr>pt_id = 1, pt_x = 3, pt_z = 1 / 2, pt_length = 6, pt_width = 1\<rparr>] ''down'')
        (1 / 2) (3 / 10) [\<lparr>pt_id = 1, pt_x = 3, pt_z = 1 / 2, pt_length = 6, pt_width = 1\<rparr>]) ! 0 =
     ''_1_WAY_SHEAR 1 2 3 4 5 6 7 8 9 10 11 12 13 14 15 16 17 18 19 -''"
    by code_simp
  have l: "length ''8 3.5 0 0; 9 4 0 0; 10 4.5 0 0; 11 5 0 0; 12 5.5 0 0; 13 6 0 0; 14 0 0 0.5;'' = 75"
    "length ''_1_WAY_SHEAR 1 2 3 4 5 6 7 8 9 10 11 12 13 14 15 16 17 18 19 -'' = 62"
    by simp_all
  show ?thesis using g j s l by (intro conjI) blast+
qed

subsection \<open>The default plan without pedestals\<close>

lemma groups_without_pedestals:
  "groupedPlates xL zL tbl mesh t [] = [] \<and> shearPlates xL zL tbl mesh t [] = [] \<and>
   twoWayShearPlates_sorted xL zL tbl mesh t [] = []"
  by (simp add: groupedPlates_def shearPlates_def twoWayShearPlates_sorted_def group_loop_def)

lemma export_lines_plain:
  "export_lines d ns ps [] t [] [] [] =
     [''STAAD SPACE'', ''START JOB INFORMATION'', ''ENGINEER DATE '' @ d,
      ''END JOB INFORMATION'', ''INPUT WIDTH 79'', ''UNIT METER KN'', ''JOINT COORDINATES''] @
     joint_lines ns @ [''ELEMENT INCIDENCES SHELL''] @ element_lines ps @
     property_section ps t @ [''FINISH'']"
  by (simp add: export_lines_def group_section_def member_section_def)

lemma header_not_in_plain_export:
  assumes "h \<in> {''MEMBER INCIDENCES'', ''MEMBER PROPERTY'', ''START GROUP DEFINITION'',
                ''END GROUP DEFINITION''}"
  shows "h \<notin> set (export_lines d ns ps [] t [] [] [])"
proof -
  have packed: "h \<notin> set (pack_lines es)" for es
    using pack_lines_end[of h es] assms by auto
  have "h \<notin> set (property_section ps t)"
    using assms by (auto simp: property_section_def)
  then show ?thesis
    using assms packed by (auto simp: export_lines_plain joint_lines_def element_lines_def)
qed
text \<open>
  Claim C8. Plan 6 by 4, mesh 0.2, no pedestals, pedestal height 0: the x lines
  are the 31 values 0, 0.2, ..., 6 and the z lines the 21 values 0, 0.2, ..., 4;
  there are 651 nodes, 600 plates and no members; the group section and the
  member sections of the export are empty, and none of their header lines occurs
  in the export, whatever the date, the thickness and the orientation.
\<close>

theorem default_plan_scenario:
  "xLines 6 (1 / 5) [] = Some (evenly_spaced (1 / 5) 30) \<and>
   zLines 4 (1 / 5) [] = Some (evenly_spaced (1 / 5) 20) \<and>
   length (evenly_spaced (1 / 5) 30) = 31 \<and> last (evenly_spaced (1 / 5) 30) = 6 \<and>
   length (evenly_spaced (1 / 5) 20) = 21 \<and> last (evenly_spaced (1 / 5) 20) = 4 \<and>
   length (nodes (evenly_spaced (1 / 5) 30) (evenly_spaced (1 / 5) 20) 0 [] ori) = 651 \<and>
   length (plates (evenly_spaced (1 / 5) 30) (evenly_spaced (1 / 5) 20) 0 [] ori) = 600 \<and>
   members (evenly_spaced (1 / 5) 30) (evenly_spaced (1 / 5) 20) 0 [] ori = [] \<and>
   group_section
     (groupedPlates (evenly_spaced (1 / 5) 30) (evenly_spaced (1 / 5) 20)
        (plateIdTable (evenly_spaced (1 / 5) 30) (evenly_spaced (1 / 5) 20) 0 [] ori) (1 / 5) t [])
     (shearPlates (evenly_spaced (1 / 5) 30) (evenly_spaced (1 / 5) 20)
        (plateIdTable (evenly_spaced (1 / 5) 30) (evenly_spaced (1 / 5) 20) 0 [] ori) (1 / 5) t [])
     (twoWayShearPlates_sorted (evenly_spaced (1 / 5) 30) (evenly_spaced (1 / 5) 20)
        (plateIdTable (evenly_spaced (1 / 5) 30) (evenly_spaced (1 / 5) 20) 0 [] ori) (1 / 5) t [])
     = [] \<and>
   member_section (plates (evenly_spaced (1 / 5) 30) (evenly_spaced (1 / 5) 20) 0 [] ori)
     (members (evenly_spaced (1 / 5) 30) (evenly_spaced (1 / 5) 20) 0 [] ori) = [] \<and>
   set [''MEMBER INCIDENCES'', ''MEMBER PROPERTY'', ''START GROUP DEFINITION'',
        ''END GROUP DEFINITION''] \<inter>
   set (export_lines d
          (nodes (evenly_spaced (1 / 5) 30) (evenly_spaced (1 / 5) 20) 0 [] ori)
          (plates (evenly_spaced (1 / 5) 30) (evenly_spaced (1 / 5) 20) 0 [] ori)
          (members (evenly_spaced (1 / 5) 30) (evenly_spaced (1 / 5) 20) 0 [] ori) t
          (groupedPlates (evenly_spaced (1 / 5) 30) (evenly_spaced (1 / 5) 20)
             (plateIdTable (evenly_spaced (1 / 5) 30) (evenly_spaced (1 / 5) 20) 0 [] ori) (1 / 5) t [])
          (shearPlates (evenly_spaced (1 / 5) 30) (evenly_spaced (1 / 5) 20)
             (plateIdTable (evenly_spaced (1 / 5) 30) (evenly_spaced (1 / 5) 20) 0 [] ori) (1 / 5) t [])
          (twoWayShearPlates_sorted (evenly_spaced (1 / 5) 30) (evenly_spaced (1 / 5) 20)
             (plateIdTable (evenly_spaced (1 / 5) 30) (evenly_spaced (1 / 5) 20) 0 [] ori) (1 / 5) t []))
     = {}"
proof -
  let ?X = "evenly_spaced (1 / 5) 30" and ?Z = "evenly_spaced (1 / 5) 20"
  have x: "xLines 6 (1 / 5) [] = Some ?X" by code_simp
  have z: "zLines 4 (1 / 5) [] = Some ?Z" by code_simp
  have lx: "length ?X = 31" and lz: "length ?Z = 21" by (simp_all add: evenly_spaced_def)
  have ex: "last ?X = 6" and ez: "last ?Z = 4" by code_simp+
  have n: "length (nodes ?X ?Z 0 [] ori) = 651" by (simp add: length_nodes lx lz)
  have p: "length (plates ?X ?Z 0 [] ori) = 600" by (simp add: length_plates lx lz)
  have "length (members ?X ?Z 0 [] ori) = 0" by (simp add: length_members)
  then have m: "members ?X ?Z 0 [] ori = []" by simp
  note g = groups_without_pedestals[of ?X ?Z "plateIdTable ?X ?Z 0 [] ori" "1 / 5" t]
  have gs: "group_section [] [] [] = []" by (simp add: group_section_def)
  have ms: "member_section (plates ?X ?Z 0 [] ori) [] = []" by (simp add: member_section_def)
  have h: "set [''MEMBER INCIDENCES'', ''MEMBER PROPERTY'', ''START GROUP DEFINITION'',
        ''END GROUP DEFINITION''] \<inter>
      set (export_lines d (nodes ?X ?Z 0 [] ori) (plates ?X ?Z 0 [] ori) [] t [] [] []) = {}"
    using header_not_in_plain_export[of _ d "nodes ?X ?Z 0 [] ori" "plates ?X ?Z 0 [] ori" t]
    by (simp only: set_simps disjoint_iff) blast
  show ?thesis
    by (simp only: m g gs ms h) (simp only: x z lx lz ex ez n p simp_thms)
qed

end
